theory Spec2Isabelle
  imports Complex_Main "HOL-Library.Log_Nat" "HOL-Library.Multiset"
begin

section \<open>JavaScript numbers\<close>

text \<open>
  Every number of \<^verbatim>\<open>App.js\<close> (a price, a quantity, a stock level, a running total) is a
  JavaScript Number: an IEEE 754 binary64 value. A finite value is kept as the rational it
  denotes; the two infinities and NaN are constructors of their own. The two zeros are
  identified: none of the operations modelled here (\<^verbatim>\<open>+\<close>, \<^verbatim>\<open>*\<close>, \<^verbatim>\<open>>\<close>, \<^verbatim>\<open>===\<close>) tells them
  apart, and a sum that starts from \<^verbatim>\<open>0\<close> is never the negative zero.
\<close>

datatype jsnum = Num rat | PInf | NInf | NaN

text \<open>\<open>flog2 r\<close> is the exponent of the binade of a positive rational: \<open>2^k \<le> r < 2^(k+1)\<close>.\<close>

definition flog2 :: "rat \<Rightarrow> int" where
  "flog2 r = (let (p, q) = quotient_of r; k = bitlen p - bitlen q
              in if 2 powi k \<le> r then k else k - 1)"

text \<open>Rounding to the nearest integer, a tie going to the even neighbour.\<close>

definition round_half_even :: "rat \<Rightarrow> int" where
  "round_half_even q = (let f = \<lfloor>q\<rfloor>; d = q - of_int f
     in if d < 1 / 2 then f else if 1 / 2 < d then f + 1 else if even f then f else f + 1)"

text \<open>
  \<open>rnd r\<close> is the binary64 value nearest to the exact result \<open>r\<close> (round to nearest, ties to
  even): a significand of at most 53 bits, the exponent of the last place at least
  \<open>-1074\<close> (subnormal results), and an infinity once the rounded magnitude reaches \<open>2^1024\<close>.
\<close>

definition rnd :: "rat \<Rightarrow> jsnum" where
  "rnd r = (if r = 0 then Num 0 else
     let e = max (flog2 \<bar>r\<bar> - 52) (- 1074);
         m = round_half_even (\<bar>r\<bar> / 2 powi e);
         v = of_int m * 2 powi e
     in if 2 ^ 1024 \<le> v then (if 0 < r then PInf else NInf) else Num (sgn r * v))"

text \<open>The operator \<^verbatim>\<open>+\<close> on two Numbers.\<close>

fun js_add :: "jsnum \<Rightarrow> jsnum \<Rightarrow> jsnum" where
  "js_add NaN y = NaN"
| "js_add x NaN = NaN"
| "js_add (Num a) (Num b) = rnd (a + b)"
| "js_add (Num a) PInf = PInf"
| "js_add (Num a) NInf = NInf"
| "js_add PInf (Num b) = PInf"
| "js_add NInf (Num b) = NInf"
| "js_add PInf PInf = PInf"
| "js_add NInf NInf = NInf"
| "js_add PInf NInf = NaN"
| "js_add NInf PInf = NaN"

text \<open>The operator \<^verbatim>\<open>*\<close> on two Numbers.\<close>

fun js_mul :: "jsnum \<Rightarrow> jsnum \<Rightarrow> jsnum" where
  "js_mul NaN y = NaN"
| "js_mul x NaN = NaN"
| "js_mul (Num a) (Num b) = rnd (a * b)"
| "js_mul (Num a) PInf = (if a = 0 then NaN else if 0 < a then PInf else NInf)"
| "js_mul (Num a) NInf = (if a = 0 then NaN else if 0 < a then NInf else PInf)"
| "js_mul PInf (Num b) = (if b = 0 then NaN else if 0 < b then PInf else NInf)"
| "js_mul NInf (Num b) = (if b = 0 then NaN else if 0 < b then NInf else PInf)"
| "js_mul PInf PInf = PInf"
| "js_mul NInf NInf = PInf"
| "js_mul PInf NInf = NInf"
| "js_mul NInf PInf = NInf"

text \<open>The comparison \<^verbatim>\<open>x > y\<close> and the strict equality \<^verbatim>\<open>x === y\<close> on two Numbers.\<close>

fun js_gt :: "jsnum \<Rightarrow> jsnum \<Rightarrow> bool" where
  "js_gt NaN y = False"
| "js_gt x NaN = False"
| "js_gt (Num a) (Num b) = (b < a)"
| "js_gt PInf PInf = False"
| "js_gt PInf y = True"
| "js_gt x NInf = (x \<noteq> NInf)"
| "js_gt x PInf = False"
| "js_gt NInf y = False"

fun js_strict_eq :: "jsnum \<Rightarrow> jsnum \<Rightarrow> bool" where
  "js_strict_eq NaN y = False"
| "js_strict_eq x NaN = False"
| "js_strict_eq x y = (x = y)"

text \<open>
  \<^verbatim>\<open>xs.reduce((sum, x) => sum + x, 0)\<close>: the sum of a list of Numbers as JavaScript
  computes it, from the left, starting at \<^verbatim>\<open>0\<close>.
\<close>

definition js_sum :: "jsnum list \<Rightarrow> jsnum" where
  "js_sum xs = foldl js_add (Num 0) xs"


section \<open>Data model\<close>

record user =
  id_u :: string
  name_u :: string
  email :: string
  role :: string

record product =
  id_p :: string
  name_p :: string
  price :: jsnum
  stock_quantity :: jsnum

record cart_item =
  id_c :: string
  product_id :: string
  quantity :: jsnum

section \<open>The HTTP client and the browser\<close>

text \<open>
  The backend is not part of the frontend: every request gets its response as an argument
  of the model. A rejected request carries \<^verbatim>\<open>error.response?.data?.detail\<close>, absent when
  any link of the chain is.
\<close>

datatype request =
    GET_auth_me
  | GET_cart
  | GET_products_id string
  | POST_cart string jsnum
  | DELETE_cart string

datatype http_error = HttpError (detail: "string option")

type_synonym 'a response = "http_error + 'a"

text \<open>
  What outlives a component: the \<^verbatim>\<open>token\<close> entry of \<^verbatim>\<open>localStorage\<close>, the default
  \<^verbatim>\<open>Authorization\<close> header of axios, the requests sent so far (oldest first) and the
  \<^verbatim>\<open>alert\<close> boxes shown so far.
\<close>

record env =
  localStorage_token :: "string option"
  axios_Authorization :: "string option"
  sent :: "request list"
  alerts :: "string list"

text \<open>\<^verbatim>\<open>error.response?.data?.detail || 'Unknown error'\<close>: an empty string is falsy.\<close>

definition detail_or_unknown :: "http_error \<Rightarrow> string" where
  "detail_or_unknown err =
     (case detail err of None \<Rightarrow> ''Unknown error''
      | Some d \<Rightarrow> if d = [] then ''Unknown error'' else d)"

definition send :: "request \<Rightarrow> env \<Rightarrow> env" where
  "send r e = e\<lparr>sent := sent e @ [r]\<rparr>"

definition alert :: "string \<Rightarrow> env \<Rightarrow> env" where
  "alert msg e = e\<lparr>alerts := alerts e @ [msg]\<rparr>"

section \<open>AuthProvider: the session store\<close>

record auth =
  user :: "user option"
  token :: "string option"

text \<open>\<^verbatim>\<open>useState(null)\<close> and \<^verbatim>\<open>useState(localStorage.getItem('token'))\<close>.\<close>

definition AuthProvider_init :: "env \<Rightarrow> auth" where
  "AuthProvider_init e = \<lparr>user = None, token = localStorage_token e\<rparr>"

definition login :: "user \<Rightarrow> string \<Rightarrow> auth \<times> env \<Rightarrow> auth \<times> env" where
  "login userData userToken s =
     (case s of (a, e) \<Rightarrow>
        (a\<lparr>user := Some userData, token := Some userToken\<rparr>,
         e\<lparr>localStorage_token := Some userToken,
           axios_Authorization := Some (''Bearer '' @ userToken)\<rparr>))"

definition logout :: "auth \<times> env \<Rightarrow> auth \<times> env" where
  "logout s =
     (case s of (a, e) \<Rightarrow>
        (a\<lparr>user := None, token := None\<rparr>,
         e\<lparr>localStorage_token := None, axios_Authorization := None\<rparr>))"

text \<open>
  The effect on \<^verbatim>\<open>[token]\<close>, in two steps. \<open>token_effect\<close> is its synchronous part: with a
  truthy token (present and not the empty string) it installs the header and sends
  \<^verbatim>\<open>GET /auth/me\<close>. \<open>auth_me_settled\<close> is the \<^verbatim>\<open>.then(...).catch(...)\<close> that runs when
  the response arrives, on the state of that moment.
\<close>

definition truthy_token :: "string option \<Rightarrow> bool" where
  "truthy_token t = (case t of None \<Rightarrow> False | Some s \<Rightarrow> s \<noteq> [])"

definition token_effect :: "auth \<times> env \<Rightarrow> auth \<times> env" where
  "token_effect s =
     (case s of (a, e) \<Rightarrow>
        if truthy_token (token a)
        then (a, send GET_auth_me (e\<lparr>axios_Authorization := Some (''Bearer '' @ the (token a))\<rparr>))
        else (a, e))"

definition auth_me_settled :: "user response \<Rightarrow> auth \<times> env \<Rightarrow> auth \<times> env" where
  "auth_me_settled resp s =
     (case resp of
        Inr data \<Rightarrow> (case s of (a, e) \<Rightarrow> (a\<lparr>user := Some data\<rparr>, e))
      | Inl err \<Rightarrow> logout s)"

text \<open>The context value: \<^verbatim>\<open>{ user, login, logout, isAuthenticated: !!user }\<close>.\<close>

record auth_context =
  ctx_user :: "user option"
  isAuthenticated :: bool

definition AuthProvider_value :: "auth \<Rightarrow> auth_context" where
  "AuthProvider_value a = \<lparr>ctx_user = user a, isAuthenticated = (user a \<noteq> None)\<rparr>"

section \<open>ProtectedRoute: the authorization gate\<close>

datatype element = Navigate string | Children

text \<open>\<^verbatim>\<open>user?.role\<close> is \<^verbatim>\<open>undefined\<close> without a user, and then differs from \<^verbatim>\<open>'admin'\<close>.\<close>

definition ProtectedRoute :: "auth_context \<Rightarrow> bool \<Rightarrow> element" where
  "ProtectedRoute ctx adminOnly =
     (if \<not> isAuthenticated ctx then Navigate ''/login''
      else if adminOnly \<and> map_option role (ctx_user ctx) \<noteq> Some ''admin''
           then Navigate ''/products''
      else Children)"

section \<open>Navigation: the cart badge\<close>

record navigation =
  cartCount :: jsnum

definition fetchCartCount ::
  "user option \<Rightarrow> cart_item list response \<Rightarrow> navigation \<times> env \<Rightarrow> navigation \<times> env" where
  "fetchCartCount usr resp s =
     (case s of (n, e) \<Rightarrow>
        if usr \<noteq> None then
          (case resp of
             Inr data \<Rightarrow>
               (n\<lparr>cartCount := foldl (\<lambda>sum item. js_add sum (quantity item)) (Num 0) data\<rparr>,
                send GET_cart e)
           | Inl err \<Rightarrow> (n, send GET_cart e))
        else (n, e))"

text \<open>\<^verbatim>\<open>{cartCount > 0 && <Badge>{cartCount}</Badge>}\<close>: the number in the badge, if any.\<close>

definition badge :: "navigation \<Rightarrow> jsnum option" where
  "badge n = (if js_gt (cartCount n) (Num 0) then Some (cartCount n) else None)"

section \<open>ProductsPage\<close>

record products_page =
  products_list :: "product list"
  selectedCategory :: string
  loading_products :: bool

definition addToCart :: "string \<Rightarrow> unit response \<Rightarrow> products_page \<times> env \<Rightarrow> products_page \<times> env" where
  "addToCart productId resp s =
     (case s of (pg, e) \<Rightarrow>
        (case resp of
           Inr ok \<Rightarrow> (pg, alert ''Product added to cart!'' (send (POST_cart productId (Num 1)) e))
         | Inl err \<Rightarrow>
             (pg, alert (''Error adding to cart: '' @ detail_or_unknown err)
                    (send (POST_cart productId (Num 1)) e))))"

text \<open>The button of a product card: \<^verbatim>\<open>disabled={product.stock_quantity === 0}\<close>.\<close>

definition add_to_cart_disabled :: "product \<Rightarrow> bool" where
  "add_to_cart_disabled p = js_strict_eq (stock_quantity p) (Num 0)"

definition add_to_cart_label :: "product \<Rightarrow> string" where
  "add_to_cart_label p =
     (if js_strict_eq (stock_quantity p) (Num 0) then ''Out of Stock'' else ''Add to Cart'')"

section \<open>CartPage\<close>

record cart_page =
  cartItems :: "cart_item list"
  products :: "string \<rightharpoonup> product"
  loading :: bool

text \<open>\<^verbatim>\<open>Promise.all\<close>: fulfilled with every value when every promise is, rejected otherwise.\<close>

fun Promise_all :: "'a response list \<Rightarrow> 'a list response" where
  "Promise_all [] = Inr []"
| "Promise_all (Inl err # rs) = Inl err"
| "Promise_all (Inr x # rs) = (case Promise_all rs of Inl err \<Rightarrow> Inl err | Inr xs \<Rightarrow> Inr (x # xs))"

text \<open>
  The \<^verbatim>\<open>forEach\<close> that fills \<^verbatim>\<open>productMap\<close>: each response under the \<^verbatim>\<open>id\<close> it carries, a
  later one replacing an earlier one.
\<close>

definition productMap_of :: "product list \<Rightarrow> (string \<rightharpoonup> product)" where
  "productMap_of rs = foldl (\<lambda>productMap res. productMap(id_p res \<mapsto> res)) Map.empty rs"

text \<open>
  \<open>fetchCart\<close>, given the response to \<^verbatim>\<open>GET /cart\<close> and the response to
  \<^verbatim>\<open>GET /products/{id}\<close> for each id. The cart items are stored as soon as they arrive;
  the product map only when every product request succeeds; \<^verbatim>\<open>loading\<close> ends either way.
\<close>

definition fetchCart ::
  "cart_item list response \<Rightarrow> (string \<Rightarrow> product response) \<Rightarrow> cart_page \<times> env \<Rightarrow> cart_page \<times> env" where
  "fetchCart cart_resp product_resp s =
     (case s of (c, e) \<Rightarrow>
        (case cart_resp of
           Inl err \<Rightarrow> (c\<lparr>loading := False\<rparr>, send GET_cart e)
         | Inr data \<Rightarrow>
             (let productIds = map product_id data;
                  e' = (send GET_cart e)\<lparr>sent := sent (send GET_cart e) @ map GET_products_id productIds\<rparr>
              in case Promise_all (map product_resp productIds) of
                   Inl err \<Rightarrow> (c\<lparr>cartItems := data, loading := False\<rparr>, e')
                 | Inr productResponses \<Rightarrow>
                     (c\<lparr>cartItems := data, products := productMap_of productResponses,
                        loading := False\<rparr>, e'))))"

text \<open>
  \<open>removeFromCart\<close>: the \<^verbatim>\<open>await fetchCart()\<close> stands after the \<^verbatim>\<open>await axios.delete(...)\<close>
  inside the \<^verbatim>\<open>try\<close>, so a rejected delete goes to the \<^verbatim>\<open>catch\<close> and its alert.
\<close>

definition removeFromCart ::
  "string \<Rightarrow> unit response \<Rightarrow> cart_item list response \<Rightarrow> (string \<Rightarrow> product response)
     \<Rightarrow> cart_page \<times> env \<Rightarrow> cart_page \<times> env" where
  "removeFromCart itemId delete_resp cart_resp product_resp s =
     (case s of (c, e) \<Rightarrow>
        (case delete_resp of
           Inr ok \<Rightarrow> fetchCart cart_resp product_resp (c, send (DELETE_cart itemId) e)
         | Inl err \<Rightarrow>
             (c, alert (''Error removing item: '' @ detail_or_unknown err)
                   (send (DELETE_cart itemId) e))))"

text \<open>
  \<^verbatim>\<open>products\<close> is a plain object (\<^verbatim>\<open>useState({})\<close>, \<^verbatim>\<open>productMap = {}\<close>), so
  \<^verbatim>\<open>products[id]\<close> finds the product stored under the id, and otherwise a member that every
  object inherits from \<^verbatim>\<open>Object.prototype\<close> when the id is the name of one. These members
  are functions (and, for \<^verbatim>\<open>__proto__\<close>, the prototype object itself): all are truthy and
  none has a \<^verbatim>\<open>price\<close>. A product stored under a name shadows the inherited member, and
  one assigned under \<^verbatim>\<open>__proto__\<close> is what reading \<^verbatim>\<open>__proto__\<close> gives back.
\<close>

definition Object_prototype_names :: "string list" where
  "Object_prototype_names =
     [''constructor'', ''hasOwnProperty'', ''isPrototypeOf'', ''propertyIsEnumerable'',
      ''toLocaleString'', ''toString'', ''valueOf'', ''__proto__'',
      ''__defineGetter__'', ''__defineSetter__'', ''__lookupGetter__'', ''__lookupSetter__'']"

datatype property = Stored product | Inherited | Absent

definition products_at :: "(string \<rightharpoonup> product) \<Rightarrow> string \<Rightarrow> property" where
  "products_at prods k =
     (case prods k of
        Some p \<Rightarrow> Stored p
      | None \<Rightarrow> if k \<in> set Object_prototype_names then Inherited else Absent)"

text \<open>
  \<open>getTotalPrice\<close>: \<^verbatim>\<open>reduce\<close> with the initial value \<^verbatim>\<open>0\<close> is a left fold. On an inherited
  member \<^verbatim>\<open>product.price\<close> is \<^verbatim>\<open>undefined\<close>, which \<^verbatim>\<open>*\<close> reads as NaN.
\<close>

definition getTotalPrice :: "cart_item list \<Rightarrow> (string \<rightharpoonup> product) \<Rightarrow> jsnum" where
  "getTotalPrice items prods =
     foldl (\<lambda>total item.
              js_add total (case products_at prods (product_id item) of
                              Stored p \<Rightarrow> js_mul (price p) (quantity item)
                            | Inherited \<Rightarrow> js_mul NaN (quantity item)
                            | Absent \<Rightarrow> Num 0))
           (Num 0) items"

text \<open>
  What the page shows: the spinner while loading, the empty-cart view, or the order summary
  with its subtotal and its total, \<^verbatim>\<open>getTotalPrice() + 49\<close> (both before \<^verbatim>\<open>toFixed(2)\<close>
  turns them into text).
\<close>

datatype cart_view = Spinner | EmptyCart | OrderSummary (subtotal: jsnum) (total: jsnum)

definition CartPage_render :: "cart_page \<Rightarrow> cart_view" where
  "CartPage_render c =
     (if loading c then Spinner
      else if length (cartItems c) = 0 then EmptyCart
      else OrderSummary (getTotalPrice (cartItems c) (products c))
                        (js_add (getTotalPrice (cartItems c) (products c)) (Num 49)))"

text \<open>\<open>proceedToCheckout\<close> only ever shows an alert.\<close>

definition proceedToCheckout :: "cart_page \<times> env \<Rightarrow> cart_page \<times> env" where
  "proceedToCheckout s =
     (case s of (c, e) \<Rightarrow>
        if length (cartItems c) = 0 then (c, alert ''Your cart is empty!'' e)
        else (c, alert ''Proceeding to checkout... (Feature to be implemented)'' e))"

section \<open>Carts whose arithmetic is exact\<close>

text \<open>
  A Number that is an integer, and the integer it is. Sums and products of integers are
  computed without rounding as long as no magnitude exceeds \<open>2^53\<close>.
\<close>

fun is_int :: "jsnum \<Rightarrow> bool" where
  "is_int (Num r) = (of_int \<lfloor>r\<rfloor> = r)"
| "is_int x = False"

fun int_val :: "jsnum \<Rightarrow> int" where
  "int_val (Num r) = \<lfloor>r\<rfloor>"
| "int_val x = 0"

text \<open>
  The amount of a cart item in integer arithmetic: price times quantity for a resolvable
  product, nothing otherwise.
\<close>

definition item_amount :: "(string \<rightharpoonup> product) \<Rightarrow> cart_item \<Rightarrow> int" where
  "item_amount prods item =
     (case prods (product_id item) of
        None \<Rightarrow> 0
      | Some p \<Rightarrow> int_val (price p) * int_val (quantity item))"

definition exact_item :: "(string \<rightharpoonup> product) \<Rightarrow> cart_item \<Rightarrow> bool" where
  "exact_item prods item =
     (case prods (product_id item) of
        None \<Rightarrow> True
      | Some p \<Rightarrow> is_int (price p) \<and> is_int (quantity item))"

text \<open>
  A cart is exact when the price and the quantity of every resolvable item are integers
  and the magnitudes of the amounts add up to at most \<open>2^53\<close>.
\<close>

definition exact_cart :: "cart_item list \<Rightarrow> (string \<rightharpoonup> product) \<Rightarrow> bool" where
  "exact_cart items prods =
     (list_all (exact_item prods) items
      \<and> (\<Sum>item\<leftarrow>items. \<bar>item_amount prods item\<bar>) \<le> 2 ^ 53)"

text \<open>
  A cart item whose product id is not in the product map and names an inherited member.
\<close>

definition inherited_id :: "(string \<rightharpoonup> product) \<Rightarrow> cart_item \<Rightarrow> bool" where
  "inherited_id prods item =
     (prods (product_id item) = None \<and> product_id item \<in> set Object_prototype_names)"

text \<open>
  The backend answers a refetch with what the page already holds: each resolvable product
  comes back as it is in the product map (and under its own id), each unresolvable one is
  refused.
\<close>

definition same_products :: "(string \<Rightarrow> product response) \<Rightarrow> cart_page \<Rightarrow> bool" where
  "same_products product_resp c =
     list_all (\<lambda>item. case products c (product_id item) of
                         Some p \<Rightarrow> product_resp (product_id item) = Inr p \<and> id_p p = product_id item
                       | None \<Rightarrow> isl (product_resp (product_id item)))
              (cartItems c)"

section \<open>Properties of the arithmetic\<close>

lemma rhe_of_int: "round_half_even (of_int n) = n"
  by (simp add: round_half_even_def)



lemma bitlen_powi:
  assumes "0 < p"
  shows "2 powi (bitlen p - 1) \<le> (of_int p :: rat) \<and> (of_int p :: rat) < 2 powi (bitlen p)"
proof -
  from bitlen_bounds [OF assms]
  have lo: "2 ^ nat (bitlen p - 1) \<le> p" and hi: "p < 2 ^ nat (bitlen p)" by simp_all
  have b1: "1 \<le> bitlen p"
  proof (rule ccontr)
    assume "\<not> 1 \<le> bitlen p"
    then have "nat (bitlen p) = 0" by simp
    with hi assms show False by simp
  qed
  have "(of_int (2 ^ nat (bitlen p - 1)) :: rat) \<le> of_int p"
    using lo by (simp only: of_int_le_iff)
  then have 1: "2 powi (bitlen p - 1) \<le> (of_int p :: rat)"
    using b1 by (simp add: power_int_def)
  have "(of_int p :: rat) < of_int (2 ^ nat (bitlen p))"
    using hi by (simp only: of_int_less_iff)
  then have 2: "(of_int p :: rat) < 2 powi (bitlen p)"
    using b1 by (simp add: power_int_def)
  from 1 2 show ?thesis by simp
qed

lemma powi2_pos: "0 < (2::rat) powi k"
  by (simp add: zero_less_power_int)

lemma powi2_suc: "(2::rat) powi (k + 1) = 2 * 2 powi k"
  by (simp add: power_int_add)

lemma powi2_pred: "(2::rat) powi (k - 1) = 2 powi k / 2"
  by (simp add: power_int_diff)

lemma powi2_diff: "(2::rat) powi (a - b) = 2 powi a / 2 powi b"
  by (simp add: power_int_diff)

lemma powi2_add: "(2::rat) powi (a + b) = 2 powi a * 2 powi b"
  by (simp add: power_int_add)

lemma powi2_less: "a < b \<Longrightarrow> (2::rat) powi a < 2 powi b"
  by (simp add: power_int_strict_increasing)

lemma powi2_le: "a \<le> b \<Longrightarrow> (2::rat) powi a \<le> 2 powi b"
  by (simp add: power_int_increasing)

lemma flog2_bounds:
  assumes "0 < r"
  shows "2 powi (flog2 r) \<le> r \<and> r < 2 powi (flog2 r + 1)"
proof -
  obtain p q where pq: "quotient_of r = (p, q)" by (cases "quotient_of r")
  have q0: "0 < q" using pq by (rule quotient_of_denom_pos)
  have r: "r = of_int p / of_int q" using pq by (rule quotient_of_div)
  have p0: "0 < p" using assms q0 r by (simp add: zero_less_divide_iff)
  define k where "k = bitlen p - bitlen q"
  define P where "P = (2::rat) powi bitlen p"
  define Q where "Q = (2::rat) powi bitlen q"
  have P0: "0 < P" and Q0: "0 < Q" by (simp_all add: P_def Q_def powi2_pos)
  have bp: "P / 2 \<le> of_int p" "of_int p < P"
    using bitlen_powi [OF p0] by (simp_all add: P_def powi2_pred)
  have bq: "Q / 2 \<le> of_int q" "of_int q < Q"
    using bitlen_powi [OF q0] by (simp_all add: Q_def powi2_pred)
  have qr: "0 < (of_int q :: rat)" using q0 by simp
  have k: "(2::rat) powi k = P / Q" by (simp add: k_def P_def Q_def powi2_diff)
  have up: "r < 2 * (P / Q)"
  proof -
    have "of_int p * Q < P * Q" using bp(2) Q0 by (simp add: mult_strict_right_mono)
    also have "P * Q \<le> P * (2 * of_int q)" using bq(1) P0 by (simp add: mult_left_mono)
    finally have "of_int p * Q < P * (2 * of_int q)" .
    then show ?thesis using qr Q0 by (simp add: r field_simps)
  qed
  have lo: "P / Q / 2 < r"
  proof -
    have "P * of_int q < P * Q" using bq(2) P0 by (simp add: mult_strict_left_mono)
    also have "P * Q \<le> (2 * of_int p) * Q" using bp(1) Q0 by (simp add: mult_right_mono)
    finally have "P * of_int q < of_int p * (2 * Q)" by (simp add: mult_ac)
    then show ?thesis using qr Q0 by (simp add: r field_simps)
  qed
  have fl: "flog2 r = (if 2 powi k \<le> r then k else k - 1)"
    by (simp add: flog2_def pq k_def)
  show ?thesis
  proof (cases "2 powi k \<le> r")
    case True
    then show ?thesis using up by (simp add: fl powi2_suc k)
  next
    case False
    then show ?thesis using lo by (simp add: fl powi2_pred k)
  qed
qed

lemma flog2_unique:
  assumes "0 < r" "2 powi k \<le> r" "r < 2 powi (k + 1)"
  shows "flog2 r = k"
proof -
  from flog2_bounds [OF assms(1)]
  have a: "2 powi (flog2 r) \<le> r" and b: "r < 2 powi (flog2 r + 1)" by simp_all
  have "\<not> flog2 r + 1 \<le> k"
  proof
    assume "flog2 r + 1 \<le> k"
    then have "(2::rat) powi (flog2 r + 1) \<le> 2 powi k" by (rule powi2_le)
    with b assms(2) show False by simp
  qed
  moreover have "\<not> k + 1 \<le> flog2 r"
  proof
    assume "k + 1 \<le> flog2 r"
    then have "(2::rat) powi (k + 1) \<le> 2 powi flog2 r" by (rule powi2_le)
    with a assms(3) show False by simp
  qed
  ultimately show ?thesis by simp
qed

lemma rnd_scaled:
  assumes v: "0 < v" and n: "v = of_int n * 2 powi (max (flog2 v - 52) (- 1074))"
    and b: "v < 2 ^ 1024"
  shows "rnd v = Num v"
proof -
  define e where "e = max (flog2 v - 52) (- 1074)"
  have q: "\<bar>v\<bar> / 2 powi e = of_int n"
    using v n powi2_pos [of e] by (simp add: e_def [symmetric])
  have "rnd v = (let m = round_half_even (\<bar>v\<bar> / 2 powi e); w = of_int m * 2 powi e
                 in if 2 ^ 1024 \<le> w then (if 0 < v then PInf else NInf) else Num (sgn v * w))"
    using v by (simp add: rnd_def e_def Let_def)
  also have "\<dots> = Num v"
    using v b n by (simp add: q rhe_of_int e_def [symmetric] Let_def)
  finally show ?thesis .
qed

lemma flog2_less:
  assumes "0 < r" "r < 2 powi j"
  shows "flog2 r < j"
proof (rule ccontr)
  assume "\<not> flog2 r < j"
  then have "(2::rat) powi j \<le> 2 powi flog2 r" by (simp add: powi2_le)
  with flog2_bounds [OF assms(1)] assms(2) show False by simp
qed

lemma powi2_nat: "0 \<le> d \<Longrightarrow> (2::rat) powi d = of_int (2 ^ nat d)"
  by (simp add: power_int_def)

lemma rnd_exact_pos:
  assumes m0: "0 < m" and m53: "m \<le> 2 ^ 53" and e: "- 1074 \<le> e"
    and b: "of_int m * 2 powi e < (2 ^ 1024 :: rat)"
  shows "rnd (of_int m * 2 powi e) = Num (of_int m * 2 powi e)"
proof -
  define v :: rat where "v = of_int m * 2 powi e"
  have v0: "0 < v" using m0 powi2_pos [of e] by (simp add: v_def)
  define e' where "e' = max (flog2 v - 52) (- 1074)"
  have "\<exists>n. v = of_int n * 2 powi e'"
  proof (cases "m = 2 ^ 53")
    case True
    then have vv: "v = 2 powi (53 + e)"
      by (simp add: v_def powi2_add)
    have "flog2 v = 53 + e"
      using v0 by (rule flog2_unique) (simp_all add: vv powi2_less)
    then have e': "e' = e + 1" using e by (simp add: e'_def)
    have "v = of_int (2 ^ 52) * 2 powi e'"
      by (simp add: vv e' powi2_add)
    then show ?thesis by blast
  next
    case False
    then have "m < 2 ^ 53" using m53 by simp
    then have "(of_int m :: rat) < of_int (2 ^ 53)" by (simp only: of_int_less_iff)
    then have "(of_int m :: rat) < 2 powi 53" by simp
    then have "v < 2 powi 53 * 2 powi e"
      using powi2_pos [of e] by (simp add: v_def)
    then have "v < 2 powi (53 + e)" by (simp add: powi2_add)
    then have "flog2 v < 53 + e" using v0 by (simp add: flog2_less)
    then have le: "e' \<le> e" using e by (simp add: e'_def)
    have "(2::rat) powi e = 2 powi (e - e') * 2 powi e'"
      by (simp add: powi2_add [symmetric])
    also have "(2::rat) powi (e - e') = of_int (2 ^ nat (e - e'))"
      using le by (simp add: powi2_nat)
    finally have "v = of_int (m * 2 ^ nat (e - e')) * 2 powi e'"
      by (simp add: v_def)
    then show ?thesis by blast
  qed
  then obtain n where "v = of_int n * 2 powi e'" ..
  then have "rnd v = Num v"
    using v0 b by (intro rnd_scaled [of v n]) (simp_all add: e'_def v_def)
  then show ?thesis by (simp add: v_def)
qed

lemma rnd_minus: "rnd (- r) = (case rnd r of Num v \<Rightarrow> Num (- v) | PInf \<Rightarrow> NInf | NInf \<Rightarrow> PInf | NaN \<Rightarrow> NaN)"
  by (simp add: rnd_def Let_def sgn_if)

lemma rnd_exact:
  assumes "\<bar>m\<bar> \<le> 2 ^ 53" "- 1074 \<le> e" "\<bar>of_int m * 2 powi e\<bar> < (2 ^ 1024 :: rat)"
  shows "rnd (of_int m * 2 powi e) = Num (of_int m * 2 powi e)"
proof -
  consider "m = 0" | "0 < m" | "m < 0" by linarith
  then show ?thesis
  proof cases
    case 1
    then show ?thesis by (simp add: rnd_def)
  next
    case 2
    then show ?thesis using assms powi2_pos [of e]
      by (intro rnd_exact_pos) (simp_all add: abs_mult)
  next
    case 3
    then have "rnd (of_int (- m) * 2 powi e) = Num (of_int (- m) * 2 powi e)"
      using assms powi2_pos [of e] by (intro rnd_exact_pos) (simp_all add: abs_mult)
    then have "rnd (- (of_int m * 2 powi e)) = Num (- (of_int m * 2 powi e))"
      by simp
    then show ?thesis
      by (simp add: rnd_minus split: jsnum.splits)
  qed
qed

lemma rnd_int:
  assumes "\<bar>n\<bar> \<le> 2 ^ 53"
  shows "rnd (of_int n) = Num (of_int n)"
proof -
  have "(of_int \<bar>n\<bar> :: rat) \<le> of_int (2 ^ 53)" using assms by (simp only: of_int_le_iff)
  then have "\<bar>of_int n :: rat\<bar> < 2 ^ 1024" by simp
  then show ?thesis using rnd_exact [of n 0] assms by simp
qed





section \<open>Properties of the cart total\<close>

lemma getTotalPrice_js_sum:
  "getTotalPrice items prods =
     js_sum (map (\<lambda>item. case products_at prods (product_id item) of
                            Stored p \<Rightarrow> js_mul (price p) (quantity item)
                          | Inherited \<Rightarrow> js_mul NaN (quantity item)
                          | Absent \<Rightarrow> Num 0) items)"
  by (simp add: getTotalPrice_def js_sum_def foldl_map)

lemma products_at_plain:
  assumes "\<not> inherited_id prods item"
  shows "(case products_at prods (product_id item) of
            Stored p \<Rightarrow> js_mul (price p) (quantity item)
          | Inherited \<Rightarrow> js_mul NaN (quantity item)
          | Absent \<Rightarrow> Num 0)
         = (case prods (product_id item) of
              Some p \<Rightarrow> js_mul (price p) (quantity item)
            | None \<Rightarrow> Num 0)"
  using assms by (cases "prods (product_id item)") (simp_all add: products_at_def inherited_id_def)

lemma getTotalPrice_plain:
  assumes "list_all (\<lambda>item. \<not> inherited_id prods item) items"
  shows "getTotalPrice items prods =
     js_sum (map (\<lambda>item. case prods (product_id item) of
                            Some p \<Rightarrow> js_mul (price p) (quantity item)
                          | None \<Rightarrow> Num 0) items)"
proof -
  have "map (\<lambda>item. case products_at prods (product_id item) of
                            Stored p \<Rightarrow> js_mul (price p) (quantity item)
                          | Inherited \<Rightarrow> js_mul NaN (quantity item)
                          | Absent \<Rightarrow> Num 0) items
        = map (\<lambda>item. case prods (product_id item) of
                            Some p \<Rightarrow> js_mul (price p) (quantity item)
                          | None \<Rightarrow> Num 0) items"
    using assms by (intro map_cong refl products_at_plain) (simp add: list_all_iff)
  then show ?thesis by (simp only: getTotalPrice_js_sum)
qed

lemma foldl_js_add_NaN: "foldl js_add NaN xs = NaN"
  by (induction xs) simp_all

lemma foldl_js_add_has_NaN: "NaN \<in> set xs \<Longrightarrow> foldl js_add t xs = NaN"
proof (induction xs arbitrary: t)
  case Nil
  then show ?case by simp
next
  case (Cons x xs)
  show ?case
  proof (cases "x = NaN")
    case True
    have "js_add t NaN = NaN" by (cases t) simp_all
    then show ?thesis using True by (simp add: foldl_js_add_NaN)
  next
    case False
    then show ?thesis using Cons by simp
  qed
qed

lemma getTotalPrice_inherited:
  assumes "list_ex (inherited_id prods) items"
  shows "getTotalPrice items prods = NaN"
proof -
  obtain item where mem: "item \<in> set items" and inh: "inherited_id prods item"
    using assms by (auto simp: list_ex_iff)
  have "(case products_at prods (product_id item) of
            Stored p \<Rightarrow> js_mul (price p) (quantity item)
          | Inherited \<Rightarrow> js_mul NaN (quantity item)
          | Absent \<Rightarrow> Num 0) = NaN"
    using inh by (simp add: products_at_def inherited_id_def)
  then have "NaN \<in> set (map (\<lambda>item. case products_at prods (product_id item) of
                            Stored p \<Rightarrow> js_mul (price p) (quantity item)
                          | Inherited \<Rightarrow> js_mul NaN (quantity item)
                          | Absent \<Rightarrow> Num 0) items)"
    using mem by force
  then show ?thesis
    unfolding getTotalPrice_js_sum js_sum_def by (rule foldl_js_add_has_NaN)
qed



lemma foldl_js_add_ints:
  "\<bar>t\<bar> + (\<Sum>n\<leftarrow>ns. \<bar>n\<bar>) \<le> 2 ^ 53 \<Longrightarrow>
     foldl js_add (Num (of_int t)) (map (\<lambda>n. Num (of_int n)) ns) = Num (of_int (t + sum_list ns))"
proof (induction ns arbitrary: t)
  case Nil
  then show ?case by simp
next
  case (Cons n ns)
  have nn: "0 \<le> (\<Sum>n\<leftarrow>ns. \<bar>n\<bar>)" by (rule sum_list_nonneg) auto
  have "\<bar>t + n\<bar> \<le> 2 ^ 53" using Cons.prems nn by simp
  then have step: "rnd (of_int t + of_int n) = Num (of_int t + of_int n)"
    using rnd_int [of "t + n"] by simp
  have "\<bar>t + n\<bar> + (\<Sum>n\<leftarrow>ns. \<bar>n\<bar>) \<le> 2 ^ 53" using Cons.prems by simp
  from Cons.IH [OF this] show ?case by (simp add: step add.assoc)
qed

lemma js_sum_ints:
  "(\<Sum>n\<leftarrow>ns. \<bar>n\<bar>) \<le> 2 ^ 53 \<Longrightarrow>
     js_sum (map (\<lambda>n. Num (of_int n)) ns) = Num (of_int (sum_list ns))"
  using foldl_js_add_ints [of 0 ns] by (simp add: js_sum_def)

lemma is_int_val: "is_int x \<Longrightarrow> x = Num (of_int (int_val x))"
proof (cases x)
  case (Num r)
  assume "is_int x"
  then have "of_int \<lfloor>r\<rfloor> = r" unfolding Num by (simp only: is_int.simps)
  then show ?thesis unfolding Num by (simp only: int_val.simps)
qed (simp_all only: is_int.simps)

lemma abs_le_sum_list_abs:
  fixes f :: "'a \<Rightarrow> int"
  shows "x \<in> set xs \<Longrightarrow> \<bar>f x\<bar> \<le> (\<Sum>y\<leftarrow>xs. \<bar>f y\<bar>)"
proof (induction xs)
  case Nil
  then show ?case by simp
next
  case (Cons a xs)
  have nn: "0 \<le> (\<Sum>y\<leftarrow>xs. \<bar>f y\<bar>)" by (rule sum_list_nonneg) auto
  from Cons show ?case using nn by auto
qed

lemma exact_contribution:
  assumes "exact_item prods item" and "\<bar>item_amount prods item\<bar> \<le> 2 ^ 53"
  shows "(case prods (product_id item) of
            Some p \<Rightarrow> js_mul (price p) (quantity item) | None \<Rightarrow> Num 0)
         = Num (of_int (item_amount prods item))"
proof (cases "prods (product_id item)")
  case None
  then show ?thesis by (simp add: item_amount_def)
next
  case (Some p)
  then have ip: "is_int (price p)" and iq: "is_int (quantity item)"
    using assms(1) by (simp_all add: exact_item_def)
  have am: "item_amount prods item = int_val (price p) * int_val (quantity item)"
    using Some by (simp add: item_amount_def)
  have "js_mul (price p) (quantity item)
        = js_mul (Num (of_int (int_val (price p)))) (Num (of_int (int_val (quantity item))))"
    using is_int_val [OF ip] is_int_val [OF iq] by simp
  also have "\<dots> = rnd (of_int (int_val (price p) * int_val (quantity item)))"
    by simp
  also have "\<dots> = Num (of_int (int_val (price p) * int_val (quantity item)))"
    using assms(2) by (intro rnd_int) (simp add: am)
  finally show ?thesis using Some by (simp add: am)
qed

lemma getTotalPrice_exact:
  assumes plain: "list_all (\<lambda>item. \<not> inherited_id prods item) items"
    and "exact_cart items prods"
  shows "getTotalPrice items prods = Num (of_int (\<Sum>item\<leftarrow>items. item_amount prods item))"
proof -
  have all: "\<And>item. item \<in> set items \<Longrightarrow> exact_item prods item"
    using assms(2) by (simp add: exact_cart_def list_all_iff)
  have bound: "(\<Sum>item\<leftarrow>items. \<bar>item_amount prods item\<bar>) \<le> 2 ^ 53"
    using assms(2) by (simp add: exact_cart_def)
  have each: "\<And>item. item \<in> set items \<Longrightarrow> \<bar>item_amount prods item\<bar> \<le> 2 ^ 53"
    using abs_le_sum_list_abs [of _ items "item_amount prods"] bound by force
  have eq: "map (\<lambda>item. case prods (product_id item) of
                       Some p \<Rightarrow> js_mul (price p) (quantity item) | None \<Rightarrow> Num 0) items
        = map (\<lambda>n. Num (of_int n)) (map (item_amount prods) items)"
    using all each by (simp add: exact_contribution)
  have "(\<Sum>n\<leftarrow>map (item_amount prods) items. \<bar>n\<bar>) \<le> 2 ^ 53"
    using bound by (simp add: comp_def)
  then have "js_sum (map (\<lambda>n. Num (of_int n)) (map (item_amount prods) items))
             = Num (of_int (sum_list (map (item_amount prods) items)))"
    by (rule js_sum_ints)
  then show ?thesis
    unfolding getTotalPrice_plain [OF plain] eq .
qed

lemma exact_cart_mset:
  assumes "mset items' = mset items"
  shows "exact_cart items' prods = exact_cart items prods"
proof -
  have "set items' = set items" using assms by (rule mset_eq_setD)
  moreover have "(\<Sum>item\<leftarrow>items'. \<bar>item_amount prods item\<bar>) = (\<Sum>item\<leftarrow>items. \<bar>item_amount prods item\<bar>)"
    using assms by (metis mset_map sum_mset_sum_list)
  ultimately show ?thesis by (simp add: exact_cart_def list_all_iff)
qed

lemma sum_amount_mset:
  assumes "mset items' = mset items"
  shows "(\<Sum>item\<leftarrow>items'. item_amount prods item) = (\<Sum>item\<leftarrow>items. item_amount prods item)"
  using assms by (metis mset_map sum_mset_sum_list)

section \<open>Evaluating a rounding\<close>

lemma rhe_near: "\<bar>q - of_int m\<bar> < 1 / 2 \<Longrightarrow> round_half_even q = m"
proof -
  assume a: "\<bar>q - of_int m\<bar> < 1 / 2"
  consider "of_int m \<le> q" | "q < of_int m" by linarith
  then show ?thesis
  proof cases
    case 1
    then have "\<lfloor>q\<rfloor> = m" using a by (intro floor_unique) linarith+
    then show ?thesis using a 1 by (simp add: round_half_even_def Let_def)
  next
    case 2
    then have "of_int (m - 1) \<le> q" "q < of_int (m - 1) + 1" using a by auto
    then have f: "\<lfloor>q\<rfloor> = m - 1" by (rule floor_unique)
    then show ?thesis using a 2 by (simp add: round_half_even_def Let_def)
  qed
qed

lemma rhe_tie: "q = of_int f + 1 / 2 \<Longrightarrow> round_half_even q = (if even f then f else f + 1)"
proof -
  assume a: "q = of_int f + 1 / 2"
  have "\<lfloor>q\<rfloor> = f" unfolding a by (intro floor_unique) simp_all
  then show ?thesis by (simp add: round_half_even_def Let_def a)
qed

lemma rnd_at:
  assumes "0 < r" "2 powi k \<le> r" "r < 2 powi (k + 1)"
    and "round_half_even (r / 2 powi (max (k - 52) (- 1074))) = m"
    and "of_int m * 2 powi (max (k - 52) (- 1074)) < (2 ^ 1024 :: rat)"
  shows "rnd r = Num (of_int m * 2 powi (max (k - 52) (- 1074)))"
proof -
  have "flog2 r = k" using assms(1-3) by (rule flog2_unique)
  then show ?thesis using assms(1,4,5) by (simp add: rnd_def Let_def)
qed

text \<open>
  The Numbers that the decimal literals \<^verbatim>\<open>0.1\<close>, \<^verbatim>\<open>0.2\<close> and \<^verbatim>\<open>0.3\<close> denote, and the
  additions among them.
\<close>

lemma literal_one_tenth: "rnd (1 / 10) = Num (3602879701896397 / 36028797018963968)"
proof -
  have "rnd (1 / 10) = Num (of_int 7205759403792794 * 2 powi (max (- 4 - 52) (- 1074)))"
    by (rule rnd_at) (simp_all add: rhe_near)
  then show ?thesis by simp
qed

lemma literal_two_tenths: "rnd (1 / 5) = Num (3602879701896397 / 18014398509481984)"
proof -
  have "rnd (1 / 5) = Num (of_int 7205759403792794 * 2 powi (max (- 3 - 52) (- 1074)))"
    by (rule rnd_at) (simp_all add: rhe_near)
  then show ?thesis by simp
qed

lemma literal_three_tenths: "rnd (3 / 10) = Num (5404319552844595 / 18014398509481984)"
proof -
  have "rnd (3 / 10) = Num (of_int 5404319552844595 * 2 powi (max (- 2 - 52) (- 1074)))"
    by (rule rnd_at) (simp_all add: rhe_near)
  then show ?thesis by simp
qed

lemma double_one_tenth: "rnd (3602879701896397 / 36028797018963968) = Num (3602879701896397 / 36028797018963968)"
  using rnd_exact [of 3602879701896397 "- 55"] by simp

lemma double_two_tenths: "rnd (3602879701896397 / 18014398509481984) = Num (3602879701896397 / 18014398509481984)"
  using rnd_exact [of 3602879701896397 "- 54"] by simp

lemma double_three_tenths: "rnd (5404319552844595 / 18014398509481984) = Num (5404319552844595 / 18014398509481984)"
  using rnd_exact [of 5404319552844595 "- 54"] by simp

lemma sum_one_two_tenths: "rnd (10808639105689191 / 36028797018963968)
            = Num (1351079888211149 / 4503599627370496)"
proof -
  have "rnd (10808639105689191 / 36028797018963968)
        = Num (of_int 5404319552844596 * 2 powi (max (- 2 - 52) (- 1074)))"
    by (rule rnd_at) (simp_all add: rhe_tie [of _ 5404319552844595])
  then show ?thesis by simp
qed

lemma sum_tenths_up: "rnd (10808639105689191 / 18014398509481984)
            = Num (1351079888211149 / 2251799813685248)"
proof -
  have "rnd (10808639105689191 / 18014398509481984)
        = Num (of_int 5404319552844596 * 2 powi (max (- 1 - 52) (- 1074)))"
    by (rule rnd_at) (simp_all add: rhe_tie [of _ 5404319552844595])
  then show ?thesis by simp
qed

lemma double_half: "rnd (1 / 2) = Num (1 / 2)"
  using rnd_exact [of 1 "- 1"] by simp

lemma sum_tenths_down: "rnd (21617278211378381 / 36028797018963968)
            = Num (5404319552844595 / 9007199254740992)"
proof -
  have "rnd (21617278211378381 / 36028797018963968)
        = Num (of_int 5404319552844595 * 2 powi (max (- 1 - 52) (- 1074)))"
    by (rule rnd_at) (simp_all add: rhe_near)
  then show ?thesis by simp
qed

section \<open>Properties of the cart page\<close>

lemma rnd_numeral: "(numeral n :: int) \<le> 2 ^ 53 \<Longrightarrow> rnd (numeral n) = Num (numeral n)"
  using rnd_int [of "numeral n"] by simp

lemma Promise_all_Inr: "Promise_all rs = Inr xs \<Longrightarrow> rs = map Inr xs"
proof (induction rs arbitrary: xs)
  case Nil
  then show ?case by simp
next
  case (Cons r rs)
  then show ?case by (cases r) (auto split: sum.splits)
qed

lemma foldl_upd_lookup:
  assumes "\<And>r. r \<in> set rs \<Longrightarrow> id_p r = k \<Longrightarrow> r = v"
  shows "foldl (\<lambda>productMap res. productMap(id_p res \<mapsto> res)) m0 rs k
         = (if \<exists>r\<in>set rs. id_p r = k then Some v else m0 k)"
  using assms
proof (induction rs arbitrary: m0)
  case Nil
  then show ?case by simp
next
  case (Cons r rs)
  have IH: "foldl (\<lambda>productMap res. productMap(id_p res \<mapsto> res)) (m0(id_p r \<mapsto> r)) rs k
         = (if \<exists>r\<in>set rs. id_p r = k then Some v else (m0(id_p r \<mapsto> r)) k)"
    by (rule Cons.IH) (simp add: Cons.prems)
  have "foldl (\<lambda>productMap res. productMap(id_p res \<mapsto> res)) m0 (r # rs) k
        = (if \<exists>r\<in>set rs. id_p r = k then Some v else (m0(id_p r \<mapsto> r)) k)"
    by (simp only: foldl_Cons IH)
  also have "\<dots> = (if \<exists>r'\<in>set (r # rs). id_p r' = k then Some v else m0 k)"
  proof (cases "id_p r = k")
    case True
    then have "r = v" using Cons.prems by simp
    then show ?thesis using True by auto
  next
    case False
    then show ?thesis by auto
  qed
  finally show ?case .
qed

lemma getTotalPrice_cong:
  assumes "\<And>item. item \<in> set items \<Longrightarrow> prods (product_id item) = prods' (product_id item)"
  shows "getTotalPrice items prods = getTotalPrice items prods'"
proof -
  have "map (\<lambda>item. case products_at prods (product_id item) of
                       Stored p \<Rightarrow> js_mul (price p) (quantity item)
                     | Inherited \<Rightarrow> js_mul NaN (quantity item)
                     | Absent \<Rightarrow> Num 0) items
        = map (\<lambda>item. case products_at prods' (product_id item) of
                       Stored p \<Rightarrow> js_mul (price p) (quantity item)
                     | Inherited \<Rightarrow> js_mul NaN (quantity item)
                     | Absent \<Rightarrow> Num 0) items"
    by (rule map_cong) (simp_all add: assms products_at_def)
  then show ?thesis by (simp only: getTotalPrice_js_sum)
qed

lemma fetchCart_same_total:
  assumes same: "same_products product_resp c"
  shows "getTotalPrice (cartItems (fst (fetchCart (Inr (cartItems c)) product_resp (c, e))))
                       (products (fst (fetchCart (Inr (cartItems c)) product_resp (c, e))))
         = getTotalPrice (cartItems c) (products c)"
proof (cases "Promise_all (map product_resp (map product_id (cartItems c)))")
  case (Inl err)
  then show ?thesis by (simp add: fetchCart_def Let_def)
next
  case (Inr rs)
  have resp: "map product_resp (map product_id (cartItems c)) = map Inr rs"
    using Inr by (rule Promise_all_Inr)
  have each: "\<And>item. item \<in> set (cartItems c) \<Longrightarrow>
      \<exists>p. products c (product_id item) = Some p \<and> product_resp (product_id item) = Inr p
          \<and> id_p p = product_id item"
  proof -
    fix item assume mem: "item \<in> set (cartItems c)"
    then have "product_resp (product_id item) \<in> set (map Inr rs)"
      using resp [symmetric] by auto
    then have notl: "\<not> isl (product_resp (product_id item))" by auto
    from same mem have "case products c (product_id item) of
        Some p \<Rightarrow> product_resp (product_id item) = Inr p \<and> id_p p = product_id item
      | None \<Rightarrow> isl (product_resp (product_id item))"
      by (simp add: same_products_def list_all_iff)
    then show "\<exists>p. products c (product_id item) = Some p \<and> product_resp (product_id item) = Inr p
          \<and> id_p p = product_id item"
      using notl by (cases "products c (product_id item)") simp_all
  qed
  have rs: "rs = map (\<lambda>item. the (products c (product_id item))) (cartItems c)"
  proof -
    have "map product_resp (map product_id (cartItems c))
          = map (\<lambda>item. Inr (the (products c (product_id item)))) (cartItems c)"
      using each by (force simp: comp_def)
    then have "map (Inr :: product \<Rightarrow> http_error + product) rs
        = map (\<lambda>item. Inr (the (products c (product_id item)))) (cartItems c)"
      by (simp only: resp)
    then have "map (Inr :: product \<Rightarrow> http_error + product) rs
        = map Inr (map (\<lambda>item. the (products c (product_id item))) (cartItems c))"
      by (simp only: map_map comp_def)
    then show ?thesis by (rule map_injective) (simp add: inj_on_def)
  qed
  have look: "productMap_of rs (product_id item) = products c (product_id item)"
    if mem: "item \<in> set (cartItems c)" for item
  proof -
    obtain p where p: "products c (product_id item) = Some p" "id_p p = product_id item"
      using each [OF mem] by blast
    have "productMap_of rs (product_id item)
          = (if \<exists>r\<in>set rs. id_p r = product_id item then Some p else Map.empty (product_id item))"
      unfolding productMap_of_def
    proof (rule foldl_upd_lookup)
      fix r assume "r \<in> set rs" and k: "id_p r = product_id item"
      then obtain item' where i': "item' \<in> set (cartItems c)"
          and r: "r = the (products c (product_id item'))"
        unfolding rs by auto
      obtain p' where p': "products c (product_id item') = Some p'" "id_p p' = product_id item'"
        using each [OF i'] by blast
      have "product_id item' = product_id item" using k r p' by simp
      then show "r = p" using r p by simp
    qed
    moreover have "\<exists>r\<in>set rs. id_p r = product_id item"
      unfolding rs using mem p by force
    ultimately show ?thesis using p by simp
  qed
  have "fst (fetchCart (Inr (cartItems c)) product_resp (c, e))
        = c\<lparr>cartItems := cartItems c, products := productMap_of rs, loading := False\<rparr>"
    using Inr by (simp add: fetchCart_def Let_def)
  moreover have "getTotalPrice (cartItems c) (productMap_of rs) = getTotalPrice (cartItems c) (products c)"
    by (rule getTotalPrice_cong) (rule look)
  ultimately show ?thesis by simp
qed

lemma sent_fetchCart:
  "sent (snd (fetchCart cart_resp product_resp (c, e)))
     = sent e @ GET_cart #
         (case cart_resp of Inl err \<Rightarrow> []
          | Inr data \<Rightarrow> map (\<lambda>item. GET_products_id (product_id item)) data)"
  by (cases cart_resp)
     (simp_all add: fetchCart_def send_def Let_def comp_def split: sum.splits)

lemma env_fetchCart:
  "localStorage_token (snd (fetchCart cart_resp product_resp (c, e))) = localStorage_token e
   \<and> axios_Authorization (snd (fetchCart cart_resp product_resp (c, e))) = axios_Authorization e
   \<and> alerts (snd (fetchCart cart_resp product_resp (c, e))) = alerts e"
  by (cases cart_resp)
     (simp_all add: fetchCart_def send_def Let_def split: sum.splits)

lemma sent_removeFromCart:
  "sent (snd (removeFromCart itemId delete_resp cart_resp product_resp (c, e)))
     = sent e @ DELETE_cart itemId #
         (case delete_resp of Inl err \<Rightarrow> []
          | Inr ok \<Rightarrow> GET_cart #
              (case cart_resp of Inl err \<Rightarrow> []
               | Inr data \<Rightarrow> map (\<lambda>item. GET_products_id (product_id item)) data))"
proof (cases delete_resp)
  case (Inl err)
  then show ?thesis by (simp add: removeFromCart_def send_def alert_def)
next
  case (Inr ok)
  have "sent (snd (fetchCart cart_resp product_resp (c, send (DELETE_cart itemId) e)))
        = sent (send (DELETE_cart itemId) e) @ GET_cart #
         (case cart_resp of Inl err \<Rightarrow> []
          | Inr data \<Rightarrow> map (\<lambda>item. GET_products_id (product_id item)) data)"
    by (rule sent_fetchCart)
  then show ?thesis using Inr by (simp add: removeFromCart_def send_def)
qed

lemma storage_removeFromCart:
  "localStorage_token (snd (removeFromCart itemId delete_resp cart_resp product_resp (c, e)))
     = localStorage_token e"
proof (cases delete_resp)
  case (Inl err)
  then show ?thesis by (simp add: removeFromCart_def send_def alert_def)
next
  case (Inr ok)
  then show ?thesis
    using env_fetchCart [of cart_resp product_resp c "send (DELETE_cart itemId) e"]
    by (simp add: removeFromCart_def send_def)
qed

section \<open>The session store\<close>

text \<open>
  C2. Initialization with a stored (truthy) token sends \<^verbatim>\<open>GET /auth/me\<close>; when that request
  fails, whatever the error, the store is logged out in full: the user and the token in
  memory are cleared, the \<^verbatim>\<open>token\<close> entry of \<^verbatim>\<open>localStorage\<close> is removed, the default
  \<^verbatim>\<open>Authorization\<close> header is removed, and no alert is shown. The last conjunct says the same
  of any state the failure may find when it arrives.
\<close>

theorem revalidation_failure_is_full_logout:
  "truthy_token (localStorage_token e) \<Longrightarrow>
     sent (snd (token_effect (AuthProvider_init e, e))) = sent e @ [GET_auth_me]
     \<and> user (fst (auth_me_settled (Inl err) (token_effect (AuthProvider_init e, e)))) = None
     \<and> token (fst (auth_me_settled (Inl err) (token_effect (AuthProvider_init e, e)))) = None
     \<and> localStorage_token (snd (auth_me_settled (Inl err) (token_effect (AuthProvider_init e, e)))) = None
     \<and> axios_Authorization (snd (auth_me_settled (Inl err) (token_effect (AuthProvider_init e, e)))) = None
     \<and> alerts (snd (auth_me_settled (Inl err) (token_effect (AuthProvider_init e, e)))) = alerts e
     \<and> auth_me_settled (Inl err) (a, e2) =
           (a\<lparr>user := None, token := None\<rparr>,
            e2\<lparr>localStorage_token := None, axios_Authorization := None\<rparr>)"
  by (simp add: token_effect_def auth_me_settled_def logout_def AuthProvider_init_def send_def)

theorem revalidation_failure_is_full_logout_witness:
  "truthy_token (localStorage_token
       \<lparr>localStorage_token = Some ''expired'', axios_Authorization = None, sent = [], alerts = []\<rparr>)
   \<and> auth_me_settled (Inl (HttpError None))
         (token_effect (AuthProvider_init
             \<lparr>localStorage_token = Some ''expired'', axios_Authorization = None, sent = [], alerts = []\<rparr>,
             \<lparr>localStorage_token = Some ''expired'', axios_Authorization = None, sent = [], alerts = []\<rparr>))
       = (\<lparr>user = None, token = None\<rparr>,
          \<lparr>localStorage_token = None, axios_Authorization = None, sent = [GET_auth_me], alerts = []\<rparr>)"
proof -
  let ?e = "\<lparr>localStorage_token = Some ''expired'', axios_Authorization = None, sent = [], alerts = []\<rparr>"
  have h: "truthy_token (localStorage_token ?e)" by (simp add: truthy_token_def)
  from revalidation_failure_is_full_logout [OF h, of "HttpError None"]
  show ?thesis using h
    by (simp add: token_effect_def auth_me_settled_def logout_def AuthProvider_init_def send_def)
qed

text \<open>
  C9. \<^verbatim>\<open>isAuthenticated\<close> holds exactly when a user is present. A stored token alone does not
  make it true: right after initialization, and while \<^verbatim>\<open>GET /auth/me\<close> is pending, the
  store is unauthenticated whatever the stored token is, and a protected route (admin or
  not) redirects to \<^verbatim>\<open>/login\<close>; it becomes true once the request has succeeded.
\<close>

theorem isAuthenticated_iff_user:
  "isAuthenticated (AuthProvider_value a) = (user a \<noteq> None)
   \<and> isAuthenticated (AuthProvider_value (AuthProvider_init e)) = False
   \<and> isAuthenticated (AuthProvider_value (fst (token_effect (AuthProvider_init e, e)))) = False
   \<and> ProtectedRoute (AuthProvider_value (fst (token_effect (AuthProvider_init e, e)))) adminOnly
        = Navigate ''/login''
   \<and> isAuthenticated (AuthProvider_value
        (fst (auth_me_settled (Inr u) (token_effect (AuthProvider_init e, e))))) = True"
  by (simp add: AuthProvider_value_def AuthProvider_init_def token_effect_def ProtectedRoute_def
        auth_me_settled_def split: prod.splits)

section \<open>The authorization gate\<close>

text \<open>
  C3. An unauthenticated context is sent to \<^verbatim>\<open>/login\<close> on every protected route, admin or
  not. On an admin route, an authenticated context whose role is not \<^verbatim>\<open>'admin'\<close> is sent to
  \<^verbatim>\<open>/products\<close>, and one whose role is \<^verbatim>\<open>'admin'\<close> gets the children rendered.
\<close>

theorem ProtectedRoute_rules:
  "(\<not> isAuthenticated ctx1 \<longrightarrow> ProtectedRoute ctx1 adminOnly = Navigate ''/login'')
   \<and> (isAuthenticated ctx2 \<and> map_option role (ctx_user ctx2) \<noteq> Some ''admin''
        \<longrightarrow> ProtectedRoute ctx2 True = Navigate ''/products'')
   \<and> (isAuthenticated ctx3 \<and> map_option role (ctx_user ctx3) = Some ''admin''
        \<longrightarrow> ProtectedRoute ctx3 True = Children)"
  by (simp add: ProtectedRoute_def)

theorem ProtectedRoute_rules_witness:
  "\<not> isAuthenticated \<lparr>ctx_user = None, isAuthenticated = False\<rparr>
   \<and> ProtectedRoute \<lparr>ctx_user = None, isAuthenticated = False\<rparr> False = Navigate ''/login''
   \<and> isAuthenticated \<lparr>ctx_user = Some \<lparr>id_u = ''u1'', name_u = ''Asha'', email = ''asha@example.com'', role = ''customer''\<rparr>, isAuthenticated = True\<rparr>
   \<and> ProtectedRoute \<lparr>ctx_user = Some \<lparr>id_u = ''u1'', name_u = ''Asha'', email = ''asha@example.com'', role = ''customer''\<rparr>, isAuthenticated = True\<rparr> True
        = Navigate ''/products''
   \<and> isAuthenticated \<lparr>ctx_user = Some \<lparr>id_u = ''u2'', name_u = ''Admin'', email = ''admin@organicfood.com'', role = ''admin''\<rparr>, isAuthenticated = True\<rparr>
   \<and> ProtectedRoute \<lparr>ctx_user = Some \<lparr>id_u = ''u2'', name_u = ''Admin'', email = ''admin@organicfood.com'', role = ''admin''\<rparr>, isAuthenticated = True\<rparr> True
        = Children"
  using ProtectedRoute_rules
    [of "\<lparr>ctx_user = None, isAuthenticated = False\<rparr>" False
        "\<lparr>ctx_user = Some \<lparr>id_u = ''u1'', name_u = ''Asha'', email = ''asha@example.com'', role = ''customer''\<rparr>, isAuthenticated = True\<rparr>"
        "\<lparr>ctx_user = Some \<lparr>id_u = ''u2'', name_u = ''Admin'', email = ''admin@organicfood.com'', role = ''admin''\<rparr>, isAuthenticated = True\<rparr>"]
  by simp

section \<open>Adding to the cart\<close>

text \<open>
  C5. For every product id and every response, \<open>addToCart\<close> sends one request, the create
  with quantity 1, and nothing after it (no retry); it leaves the page state, the stored
  token and the default header as they were. When the request fails, the alert shown is
  \<^verbatim>\<open>'Error adding to cart: '\<close> followed by the detail of the error when there is a
  non-empty one, and by \<^verbatim>\<open>'Unknown error'\<close> when the detail is absent or empty.
\<close>

theorem addToCart_failure:
  "sent (snd (addToCart productId resp (pg, e))) = sent e @ [POST_cart productId (Num 1)]
   \<and> fst (addToCart productId resp (pg, e)) = pg
   \<and> localStorage_token (snd (addToCart productId resp (pg, e))) = localStorage_token e
   \<and> axios_Authorization (snd (addToCart productId resp (pg, e))) = axios_Authorization e
   \<and> (detail err1 = Some d \<and> d \<noteq> [] \<longrightarrow>
        alerts (snd (addToCart productId (Inl err1) (pg, e)))
          = alerts e @ [''Error adding to cart: '' @ d])
   \<and> (detail err2 = None \<or> detail err2 = Some [] \<longrightarrow>
        alerts (snd (addToCart productId (Inl err2) (pg, e)))
          = alerts e @ [''Error adding to cart: Unknown error''])"
  by (cases resp) (auto simp: addToCart_def send_def alert_def detail_or_unknown_def)

theorem addToCart_failure_witness:
  "detail (HttpError (Some ''Insufficient stock'')) = Some ''Insufficient stock''
   \<and> ''Insufficient stock'' \<noteq> []
   \<and> detail (HttpError None) = None
   \<and> addToCart ''p1'' (Inl (HttpError (Some ''Insufficient stock'')))
        (\<lparr>products_list = [], selectedCategory = [], loading_products = False\<rparr>,
         \<lparr>localStorage_token = Some ''t'', axios_Authorization = Some ''Bearer t'', sent = [], alerts = []\<rparr>)
       = (\<lparr>products_list = [], selectedCategory = [], loading_products = False\<rparr>,
          \<lparr>localStorage_token = Some ''t'', axios_Authorization = Some ''Bearer t'',
             sent = [POST_cart ''p1'' (Num 1)],
             alerts = [''Error adding to cart: Insufficient stock'']\<rparr>)
   \<and> alerts (snd (addToCart ''p1'' (Inl (HttpError None))
        (\<lparr>products_list = [], selectedCategory = [], loading_products = False\<rparr>,
         \<lparr>localStorage_token = Some ''t'', axios_Authorization = Some ''Bearer t'', sent = [], alerts = []\<rparr>)))
       = [''Error adding to cart: Unknown error'']"
  using addToCart_failure
    [of "''p1''" "Inl (HttpError (Some ''Insufficient stock''))"
        "\<lparr>products_list = [], selectedCategory = [], loading_products = False\<rparr>"
        "\<lparr>localStorage_token = Some ''t'', axios_Authorization = Some ''Bearer t'', sent = [], alerts = []\<rparr>"
        "HttpError (Some ''Insufficient stock'')" "''Insufficient stock''" "HttpError None"]
  by (simp add: addToCart_def send_def alert_def detail_or_unknown_def)

text \<open>
  C8, as the code has it. The button is disabled exactly when \<^verbatim>\<open>stock_quantity\<close> is \<^verbatim>\<open>0\<close>:
  it is enabled for every stock above zero and for every stock below zero as well. The
  check is a hint: \<open>addToCart\<close> sends the create whatever the stock of the product is.
\<close>

theorem add_to_cart_disabled_iff:
  "add_to_cart_disabled p = (stock_quantity p = Num 0)
   \<and> (js_gt (stock_quantity p1) (Num 0) \<longrightarrow> \<not> add_to_cart_disabled p1)
   \<and> (js_gt (Num 0) (stock_quantity p2) \<longrightarrow> \<not> add_to_cart_disabled p2)
   \<and> add_to_cart_label p = (if stock_quantity p = Num 0 then ''Out of Stock'' else ''Add to Cart'')
   \<and> sent (snd (addToCart (id_p p) resp (pg, e))) = sent e @ [POST_cart (id_p p) (Num 1)]"
proof -
  have eq: "js_strict_eq x (Num 0) = (x = Num 0)" for x
    by (cases x) simp_all
  have pos: "js_gt x (Num 0) \<Longrightarrow> x \<noteq> Num 0" for x
    by (cases x) auto
  have neg: "js_gt (Num 0) x \<Longrightarrow> x \<noteq> Num 0" for x
    by (cases x) auto
  have snt: "sent (snd (addToCart (id_p p) resp (pg, e))) = sent e @ [POST_cart (id_p p) (Num 1)]"
    by (cases resp) (simp_all add: addToCart_def send_def alert_def)
  show ?thesis
    using pos [of "stock_quantity p1"] neg [of "stock_quantity p2"] snt
    by (simp add: add_to_cart_disabled_def add_to_cart_label_def eq)
qed

theorem add_to_cart_disabled_iff_witness:
  "js_gt (stock_quantity \<lparr>id_p = ''p1'', name_p = ''Apple'', price = Num 40, stock_quantity = Num 7\<rparr>) (Num 0)
   \<and> \<not> add_to_cart_disabled \<lparr>id_p = ''p1'', name_p = ''Apple'', price = Num 40, stock_quantity = Num 7\<rparr>
   \<and> js_gt (Num 0) (stock_quantity \<lparr>id_p = ''p2'', name_p = ''Pear'', price = Num 55, stock_quantity = Num (- 2)\<rparr>)
   \<and> \<not> add_to_cart_disabled \<lparr>id_p = ''p2'', name_p = ''Pear'', price = Num 55, stock_quantity = Num (- 2)\<rparr>
   \<and> add_to_cart_disabled \<lparr>id_p = ''p3'', name_p = ''Plum'', price = Num 30, stock_quantity = Num 0\<rparr>"
  using add_to_cart_disabled_iff
    [of "\<lparr>id_p = ''p3'', name_p = ''Plum'', price = Num 30, stock_quantity = Num 0\<rparr>"
        "\<lparr>id_p = ''p1'', name_p = ''Apple'', price = Num 40, stock_quantity = Num 7\<rparr>"
        "\<lparr>id_p = ''p2'', name_p = ''Pear'', price = Num 55, stock_quantity = Num (- 2)\<rparr>"]
  by simp

text \<open>
  C8, as the claim has it, fails below zero: a product with \<^verbatim>\<open>stock_quantity = -1\<close> has a
  stock that is at most zero, and its button is enabled.
\<close>

theorem add_to_cart_enabled_below_zero:
  "js_gt (Num 0) (stock_quantity \<lparr>id_p = ''p1'', name_p = ''Apple'', price = Num 40, stock_quantity = Num (- 1)\<rparr>)
   \<and> \<not> add_to_cart_disabled \<lparr>id_p = ''p1'', name_p = ''Apple'', price = Num 40, stock_quantity = Num (- 1)\<rparr>"
  by (simp add: add_to_cart_disabled_def)

section \<open>The cart total\<close>




text \<open>
  C6, as the code has it. The total of an exact cart (integer prices and quantities,
  magnitudes adding up to at most \<open>2^53\<close>) is the same for every order of the cart items:
  no addition rounds.
\<close>

theorem getTotalPrice_permutation_exact:
  "exact_cart items prods \<Longrightarrow> mset items' = mset items \<Longrightarrow>
     getTotalPrice items' prods = getTotalPrice items prods"
proof -
  assume ex: "exact_cart items prods" and perm: "mset items' = mset items"
  have ex': "exact_cart items' prods"
    using exact_cart_mset [OF perm, of prods] ex by simp
  have same: "set items' = set items" using perm by (rule mset_eq_setD)
  show ?thesis
  proof (cases "list_ex (inherited_id prods) items")
    case True
    then have "list_ex (inherited_id prods) items'"
      using same by (simp add: list_ex_iff)
    then show ?thesis using True by (simp add: getTotalPrice_inherited)
  next
    case False
    then have plain: "list_all (\<lambda>item. \<not> inherited_id prods item) items"
      by (simp add: list_all_iff list_ex_iff)
    then have plain': "list_all (\<lambda>item. \<not> inherited_id prods item) items'"
      using same by (simp add: list_all_iff)
    have "getTotalPrice items' prods = Num (of_int (\<Sum>item\<leftarrow>items'. item_amount prods item))"
      using plain' ex' by (rule getTotalPrice_exact)
    also have "\<dots> = Num (of_int (\<Sum>item\<leftarrow>items. item_amount prods item))"
      by (simp only: sum_amount_mset [OF perm])
    also have "\<dots> = getTotalPrice items prods"
      using plain ex by (rule getTotalPrice_exact [symmetric])
    finally show ?thesis .
  qed
qed

text \<open>
  C6 at a cart of three items and a rotation of it.
\<close>

theorem getTotalPrice_permutation_exact_witness:
  "exact_cart
      [\<lparr>id_c = ''c1'', product_id = ''p1'', quantity = Num 2\<rparr>,
       \<lparr>id_c = ''c2'', product_id = ''p2'', quantity = Num 1\<rparr>,
       \<lparr>id_c = ''c3'', product_id = ''p3'', quantity = Num 4\<rparr>]
      [''p1'' \<mapsto> \<lparr>id_p = ''p1'', name_p = ''Apple'', price = Num 120, stock_quantity = Num 5\<rparr>,
       ''p2'' \<mapsto> \<lparr>id_p = ''p2'', name_p = ''Ghee'', price = Num 450, stock_quantity = Num 9\<rparr>,
       ''p3'' \<mapsto> \<lparr>id_p = ''p3'', name_p = ''Millet'', price = Num 85, stock_quantity = Num 20\<rparr>]
   \<and> mset [\<lparr>id_c = ''c3'', product_id = ''p3'', quantity = Num 4\<rparr>,
            \<lparr>id_c = ''c1'', product_id = ''p1'', quantity = Num 2\<rparr>,
            \<lparr>id_c = ''c2'', product_id = ''p2'', quantity = Num 1\<rparr>]
       = mset [\<lparr>id_c = ''c1'', product_id = ''p1'', quantity = Num 2\<rparr>,
               \<lparr>id_c = ''c2'', product_id = ''p2'', quantity = Num 1\<rparr>,
               \<lparr>id_c = ''c3'', product_id = ''p3'', quantity = Num 4\<rparr>]
   \<and> getTotalPrice
        [\<lparr>id_c = ''c3'', product_id = ''p3'', quantity = Num 4\<rparr>,
         \<lparr>id_c = ''c1'', product_id = ''p1'', quantity = Num 2\<rparr>,
         \<lparr>id_c = ''c2'', product_id = ''p2'', quantity = Num 1\<rparr>]
        [''p1'' \<mapsto> \<lparr>id_p = ''p1'', name_p = ''Apple'', price = Num 120, stock_quantity = Num 5\<rparr>,
         ''p2'' \<mapsto> \<lparr>id_p = ''p2'', name_p = ''Ghee'', price = Num 450, stock_quantity = Num 9\<rparr>,
         ''p3'' \<mapsto> \<lparr>id_p = ''p3'', name_p = ''Millet'', price = Num 85, stock_quantity = Num 20\<rparr>]
     = getTotalPrice
        [\<lparr>id_c = ''c1'', product_id = ''p1'', quantity = Num 2\<rparr>,
         \<lparr>id_c = ''c2'', product_id = ''p2'', quantity = Num 1\<rparr>,
         \<lparr>id_c = ''c3'', product_id = ''p3'', quantity = Num 4\<rparr>]
        [''p1'' \<mapsto> \<lparr>id_p = ''p1'', name_p = ''Apple'', price = Num 120, stock_quantity = Num 5\<rparr>,
         ''p2'' \<mapsto> \<lparr>id_p = ''p2'', name_p = ''Ghee'', price = Num 450, stock_quantity = Num 9\<rparr>,
         ''p3'' \<mapsto> \<lparr>id_p = ''p3'', name_p = ''Millet'', price = Num 85, stock_quantity = Num 20\<rparr>]"
proof -
  let ?a = "\<lparr>id_c = ''c1'', product_id = ''p1'', quantity = Num 2\<rparr>"
  let ?b = "\<lparr>id_c = ''c2'', product_id = ''p2'', quantity = Num 1\<rparr>"
  let ?c = "\<lparr>id_c = ''c3'', product_id = ''p3'', quantity = Num 4\<rparr>"
  let ?prods = "[''p1'' \<mapsto> \<lparr>id_p = ''p1'', name_p = ''Apple'', price = Num 120, stock_quantity = Num 5\<rparr>,
         ''p2'' \<mapsto> \<lparr>id_p = ''p2'', name_p = ''Ghee'', price = Num 450, stock_quantity = Num 9\<rparr>,
         ''p3'' \<mapsto> \<lparr>id_p = ''p3'', name_p = ''Millet'', price = Num 85, stock_quantity = Num 20\<rparr>]"
  have h1: "exact_cart [?a, ?b, ?c] ?prods"
    by (simp add: exact_cart_def exact_item_def item_amount_def)
  have h2: "mset [?c, ?a, ?b] = mset [?a, ?b, ?c]"
    by simp
  from h1 h2 getTotalPrice_permutation_exact [OF h1 h2] show ?thesis
    by (intro conjI)
qed

text \<open>
  C6, as the claim has it, fails when additions round. Three products priced \<^verbatim>\<open>0.1\<close>,
  \<^verbatim>\<open>0.2\<close> and \<^verbatim>\<open>0.3\<close> (\<open>rnd (1 / 10)\<close> is the Number the literal \<^verbatim>\<open>0.1\<close> denotes, and
  so on), one of each in the cart. In the order \<^verbatim>\<open>0.1, 0.2, 0.3\<close> the running totals are
  \<^verbatim>\<open>0.1\<close>, \<^verbatim>\<open>0.30000000000000004\<close> and \<^verbatim>\<open>0.6000000000000001\<close>, the last being
  \<open>5404319552844596 / 2^53\<close>; in the reverse order they are \<^verbatim>\<open>0.3\<close>, \<^verbatim>\<open>0.5\<close> and
  \<^verbatim>\<open>0.6\<close>, the last being \<open>5404319552844595 / 2^53\<close>.
\<close>

theorem getTotalPrice_order_dependent:
  "mset [\<lparr>id_c = ''c3'', product_id = ''p3'', quantity = Num 1\<rparr>,
         \<lparr>id_c = ''c2'', product_id = ''p2'', quantity = Num 1\<rparr>,
         \<lparr>id_c = ''c1'', product_id = ''p1'', quantity = Num 1\<rparr>]
     = mset [\<lparr>id_c = ''c1'', product_id = ''p1'', quantity = Num 1\<rparr>,
             \<lparr>id_c = ''c2'', product_id = ''p2'', quantity = Num 1\<rparr>,
             \<lparr>id_c = ''c3'', product_id = ''p3'', quantity = Num 1\<rparr>]
   \<and> getTotalPrice
      [\<lparr>id_c = ''c1'', product_id = ''p1'', quantity = Num 1\<rparr>,
       \<lparr>id_c = ''c2'', product_id = ''p2'', quantity = Num 1\<rparr>,
       \<lparr>id_c = ''c3'', product_id = ''p3'', quantity = Num 1\<rparr>]
      [''p1'' \<mapsto> \<lparr>id_p = ''p1'', name_p = ''Lemon'', price = rnd (1 / 10), stock_quantity = Num 5\<rparr>,
       ''p2'' \<mapsto> \<lparr>id_p = ''p2'', name_p = ''Chilli'', price = rnd (2 / 10), stock_quantity = Num 9\<rparr>,
       ''p3'' \<mapsto> \<lparr>id_p = ''p3'', name_p = ''Curry leaves'', price = rnd (3 / 10), stock_quantity = Num 9\<rparr>]
     = Num (5404319552844596 / 2 ^ 53)
   \<and> getTotalPrice
      [\<lparr>id_c = ''c3'', product_id = ''p3'', quantity = Num 1\<rparr>,
       \<lparr>id_c = ''c2'', product_id = ''p2'', quantity = Num 1\<rparr>,
       \<lparr>id_c = ''c1'', product_id = ''p1'', quantity = Num 1\<rparr>]
      [''p1'' \<mapsto> \<lparr>id_p = ''p1'', name_p = ''Lemon'', price = rnd (1 / 10), stock_quantity = Num 5\<rparr>,
       ''p2'' \<mapsto> \<lparr>id_p = ''p2'', name_p = ''Chilli'', price = rnd (2 / 10), stock_quantity = Num 9\<rparr>,
       ''p3'' \<mapsto> \<lparr>id_p = ''p3'', name_p = ''Curry leaves'', price = rnd (3 / 10), stock_quantity = Num 9\<rparr>]
     = Num (5404319552844595 / 2 ^ 53)
   \<and> Num (5404319552844596 / 2 ^ 53) \<noteq> Num (5404319552844595 / 2 ^ 53)"
  by (simp add: getTotalPrice_def products_at_def
        literal_one_tenth literal_two_tenths literal_three_tenths
        double_one_tenth double_two_tenths double_three_tenths
        sum_one_two_tenths sum_tenths_up double_half sum_tenths_down)

text \<open>
  C7. The order summary shows \<open>getTotalPrice\<close> as the subtotal and
  \<^verbatim>\<open>getTotalPrice() + 49\<close> as the total (the numbers that \<^verbatim>\<open>toFixed(2)\<close> then prints). The
  constant is not part of \<open>getTotalPrice\<close>, which adds the amounts of the items and is
  \<^verbatim>\<open>0\<close> on an empty cart. Nothing the cart page does stores or sends it: \<open>fetchCart\<close>,
  \<open>removeFromCart\<close> and \<open>proceedToCheckout\<close> leave \<^verbatim>\<open>localStorage\<close> as it is, and the
  requests they send are \<^verbatim>\<open>GET /cart\<close>, \<^verbatim>\<open>GET /products/{id}\<close> and \<^verbatim>\<open>DELETE /cart/{id}\<close>,
  none of which has a body.
\<close>

theorem delivery_surcharge_display_only:
  "(\<not> loading c \<and> cartItems c \<noteq> [] \<longrightarrow>
      CartPage_render c = OrderSummary (getTotalPrice (cartItems c) (products c))
                            (js_add (getTotalPrice (cartItems c) (products c)) (Num 49)))
   \<and> getTotalPrice items prods =
       js_sum (map (\<lambda>item. case products_at prods (product_id item) of
                              Stored p \<Rightarrow> js_mul (price p) (quantity item)
                            | Inherited \<Rightarrow> js_mul NaN (quantity item)
                            | Absent \<Rightarrow> Num 0) items)
   \<and> getTotalPrice [] prods = Num 0
   \<and> localStorage_token (snd (fetchCart cart_resp product_resp (c, e))) = localStorage_token e
   \<and> sent (snd (fetchCart cart_resp product_resp (c, e)))
       = sent e @ GET_cart #
           (case cart_resp of Inl err \<Rightarrow> []
            | Inr data \<Rightarrow> map (\<lambda>item. GET_products_id (product_id item)) data)
   \<and> localStorage_token (snd (removeFromCart itemId delete_resp cart_resp product_resp (c, e)))
       = localStorage_token e
   \<and> sent (snd (removeFromCart itemId delete_resp cart_resp product_resp (c, e)))
       = sent e @ DELETE_cart itemId #
           (case delete_resp of Inl err \<Rightarrow> []
            | Inr ok \<Rightarrow> GET_cart #
                (case cart_resp of Inl err \<Rightarrow> []
                 | Inr data \<Rightarrow> map (\<lambda>item. GET_products_id (product_id item)) data))
   \<and> localStorage_token (snd (proceedToCheckout (c, e))) = localStorage_token e
   \<and> sent (snd (proceedToCheckout (c, e))) = sent e"
proof -
  have render: "\<not> loading c \<and> cartItems c \<noteq> [] \<longrightarrow>
      CartPage_render c = OrderSummary (getTotalPrice (cartItems c) (products c))
                            (js_add (getTotalPrice (cartItems c) (products c)) (Num 49))"
    by (simp add: CartPage_render_def)
  have empty: "getTotalPrice [] prods = Num 0"
    by (simp add: getTotalPrice_def)
  have checkout: "localStorage_token (snd (proceedToCheckout (c, e))) = localStorage_token e"
      "sent (snd (proceedToCheckout (c, e))) = sent e"
    by (simp_all add: proceedToCheckout_def alert_def)
  show ?thesis
    using render getTotalPrice_js_sum [of items prods] empty
      env_fetchCart [of cart_resp product_resp c e]
      sent_fetchCart [of cart_resp product_resp c e]
      storage_removeFromCart [of itemId delete_resp cart_resp product_resp c e]
      sent_removeFromCart [of itemId delete_resp cart_resp product_resp c e]
      checkout
    by (intro conjI) blast+
qed

text \<open>
  C7 at a cart of two apples at 120 each: the subtotal is 240, the total shown is 289.
\<close>

theorem delivery_surcharge_display_only_witness:
  "\<not> loading \<lparr>cartItems = [\<lparr>id_c = ''c1'', product_id = ''p1'', quantity = Num 2\<rparr>],
               products = [''p1'' \<mapsto> \<lparr>id_p = ''p1'', name_p = ''Apple'', price = Num 120, stock_quantity = Num 5\<rparr>],
               loading = False\<rparr>
   \<and> cartItems \<lparr>cartItems = [\<lparr>id_c = ''c1'', product_id = ''p1'', quantity = Num 2\<rparr>],
               products = [''p1'' \<mapsto> \<lparr>id_p = ''p1'', name_p = ''Apple'', price = Num 120, stock_quantity = Num 5\<rparr>],
               loading = False\<rparr> \<noteq> []
   \<and> CartPage_render
        \<lparr>cartItems = [\<lparr>id_c = ''c1'', product_id = ''p1'', quantity = Num 2\<rparr>],
         products = [''p1'' \<mapsto> \<lparr>id_p = ''p1'', name_p = ''Apple'', price = Num 120, stock_quantity = Num 5\<rparr>],
         loading = False\<rparr>
       = OrderSummary (Num 240) (Num 289)"
proof -
  let ?c = "\<lparr>cartItems = [\<lparr>id_c = ''c1'', product_id = ''p1'', quantity = Num 2\<rparr>],
         products = [''p1'' \<mapsto> \<lparr>id_p = ''p1'', name_p = ''Apple'', price = Num 120, stock_quantity = Num 5\<rparr>],
         loading = False\<rparr>"
  have h: "\<not> loading ?c \<and> cartItems ?c \<noteq> []" by simp
  have "CartPage_render ?c = OrderSummary (getTotalPrice (cartItems ?c) (products ?c))
                            (js_add (getTotalPrice (cartItems ?c) (products ?c)) (Num 49))"
    by (rule delivery_surcharge_display_only [of ?c, THEN conjunct1, rule_format, OF h])
  moreover have "getTotalPrice (cartItems ?c) (products ?c) = Num 240"
    by (simp add: getTotalPrice_def products_at_def rnd_numeral)
  ultimately have "CartPage_render ?c = OrderSummary (Num 240) (Num 289)"
    by (simp add: rnd_numeral)
  with h show ?thesis by simp
qed

section \<open>Removing from the cart\<close>

text \<open>
  C4, as the code has it. \<open>removeFromCart\<close> always sends the delete first. When the delete
  succeeds, the refetch follows: \<^verbatim>\<open>GET /cart\<close>, then one \<^verbatim>\<open>GET /products/{id}\<close> per item of
  the answer. When the delete fails, nothing else is sent, an alert is shown, and the cart
  page is left as it was, so the total is unchanged. When the delete succeeds and the
  backend answers the refetch with the cart and the products the page already holds (the
  case of an item that was not in the cart), the total is unchanged as well.
\<close>

theorem removeFromCart_delete_then_refetch:
  "sent (snd (removeFromCart itemId delete_resp cart_resp product_resp (c, e)))
     = sent e @ DELETE_cart itemId #
         (case delete_resp of Inl err \<Rightarrow> []
          | Inr ok \<Rightarrow> GET_cart #
              (case cart_resp of Inl err \<Rightarrow> []
               | Inr data \<Rightarrow> map (\<lambda>item. GET_products_id (product_id item)) data))
   \<and> removeFromCart itemId (Inl err) cart_resp product_resp (c, e)
       = (c, e\<lparr>sent := sent e @ [DELETE_cart itemId],
               alerts := alerts e @ [''Error removing item: '' @ detail_or_unknown err]\<rparr>)
   \<and> getTotalPrice (cartItems (fst (removeFromCart itemId (Inl err) cart_resp product_resp (c, e))))
                    (products (fst (removeFromCart itemId (Inl err) cart_resp product_resp (c, e))))
       = getTotalPrice (cartItems c) (products c)
   \<and> (same_products product_resp c \<longrightarrow>
        getTotalPrice
          (cartItems (fst (removeFromCart itemId (Inr ok) (Inr (cartItems c)) product_resp (c, e))))
          (products (fst (removeFromCart itemId (Inr ok) (Inr (cartItems c)) product_resp (c, e))))
        = getTotalPrice (cartItems c) (products c))"
proof -
  have failed: "removeFromCart itemId (Inl err) cart_resp product_resp (c, e)
       = (c, e\<lparr>sent := sent e @ [DELETE_cart itemId],
               alerts := alerts e @ [''Error removing item: '' @ detail_or_unknown err]\<rparr>)"
    by (simp add: removeFromCart_def send_def alert_def)
  have unchanged: "getTotalPrice (cartItems (fst (removeFromCart itemId (Inl err) cart_resp product_resp (c, e))))
                    (products (fst (removeFromCart itemId (Inl err) cart_resp product_resp (c, e))))
       = getTotalPrice (cartItems c) (products c)"
    by (simp only: failed fst_conv)
  have refetched: "same_products product_resp c \<longrightarrow>
        getTotalPrice
          (cartItems (fst (removeFromCart itemId (Inr ok) (Inr (cartItems c)) product_resp (c, e))))
          (products (fst (removeFromCart itemId (Inr ok) (Inr (cartItems c)) product_resp (c, e))))
        = getTotalPrice (cartItems c) (products c)"
  proof
    assume "same_products product_resp c"
    then have "getTotalPrice
        (cartItems (fst (fetchCart (Inr (cartItems c)) product_resp (c, send (DELETE_cart itemId) e))))
        (products (fst (fetchCart (Inr (cartItems c)) product_resp (c, send (DELETE_cart itemId) e))))
      = getTotalPrice (cartItems c) (products c)"
      by (rule fetchCart_same_total)
    then show "getTotalPrice
          (cartItems (fst (removeFromCart itemId (Inr ok) (Inr (cartItems c)) product_resp (c, e))))
          (products (fst (removeFromCart itemId (Inr ok) (Inr (cartItems c)) product_resp (c, e))))
        = getTotalPrice (cartItems c) (products c)"
      by (simp add: removeFromCart_def)
  qed
  from sent_removeFromCart [of itemId delete_resp cart_resp product_resp c e]
    failed unchanged refetched
  show ?thesis by (intro conjI)
qed

text \<open>
  C4 at a cart of one item: removing the unknown item \<^verbatim>\<open>c9\<close>, the delete succeeding.
\<close>

theorem removeFromCart_delete_then_refetch_witness:
  "same_products
      (\<lambda>pid. if pid = ''p1''
              then Inr \<lparr>id_p = ''p1'', name_p = ''Apple'', price = Num 120, stock_quantity = Num 5\<rparr>
              else Inl (HttpError (Some ''Product not found'')))
      \<lparr>cartItems = [\<lparr>id_c = ''c1'', product_id = ''p1'', quantity = Num 2\<rparr>],
        products = [''p1'' \<mapsto> \<lparr>id_p = ''p1'', name_p = ''Apple'', price = Num 120, stock_quantity = Num 5\<rparr>],
        loading = False\<rparr>
   \<and> getTotalPrice
        (cartItems (fst (removeFromCart ''c9'' (Inr ())
           (Inr [\<lparr>id_c = ''c1'', product_id = ''p1'', quantity = Num 2\<rparr>])
           (\<lambda>pid. if pid = ''p1''
              then Inr \<lparr>id_p = ''p1'', name_p = ''Apple'', price = Num 120, stock_quantity = Num 5\<rparr>
              else Inl (HttpError (Some ''Product not found'')))
           (\<lparr>cartItems = [\<lparr>id_c = ''c1'', product_id = ''p1'', quantity = Num 2\<rparr>],
             products = [''p1'' \<mapsto> \<lparr>id_p = ''p1'', name_p = ''Apple'', price = Num 120, stock_quantity = Num 5\<rparr>],
             loading = False\<rparr>,
            \<lparr>localStorage_token = Some ''t'', axios_Authorization = Some ''Bearer t'', sent = [], alerts = []\<rparr>))))
        (products (fst (removeFromCart ''c9'' (Inr ())
           (Inr [\<lparr>id_c = ''c1'', product_id = ''p1'', quantity = Num 2\<rparr>])
           (\<lambda>pid. if pid = ''p1''
              then Inr \<lparr>id_p = ''p1'', name_p = ''Apple'', price = Num 120, stock_quantity = Num 5\<rparr>
              else Inl (HttpError (Some ''Product not found'')))
           (\<lparr>cartItems = [\<lparr>id_c = ''c1'', product_id = ''p1'', quantity = Num 2\<rparr>],
             products = [''p1'' \<mapsto> \<lparr>id_p = ''p1'', name_p = ''Apple'', price = Num 120, stock_quantity = Num 5\<rparr>],
             loading = False\<rparr>,
            \<lparr>localStorage_token = Some ''t'', axios_Authorization = Some ''Bearer t'', sent = [], alerts = []\<rparr>))))
      = Num 240
   \<and> sent (snd (removeFromCart ''c9'' (Inr ())
           (Inr [\<lparr>id_c = ''c1'', product_id = ''p1'', quantity = Num 2\<rparr>])
           (\<lambda>pid. if pid = ''p1''
              then Inr \<lparr>id_p = ''p1'', name_p = ''Apple'', price = Num 120, stock_quantity = Num 5\<rparr>
              else Inl (HttpError (Some ''Product not found'')))
           (\<lparr>cartItems = [\<lparr>id_c = ''c1'', product_id = ''p1'', quantity = Num 2\<rparr>],
             products = [''p1'' \<mapsto> \<lparr>id_p = ''p1'', name_p = ''Apple'', price = Num 120, stock_quantity = Num 5\<rparr>],
             loading = False\<rparr>,
            \<lparr>localStorage_token = Some ''t'', axios_Authorization = Some ''Bearer t'', sent = [], alerts = []\<rparr>)))
      = [DELETE_cart ''c9'', GET_cart, GET_products_id ''p1'']"
proof -
  let ?pr = "\<lambda>pid. if pid = ''p1''
              then Inr \<lparr>id_p = ''p1'', name_p = ''Apple'', price = Num 120, stock_quantity = Num 5\<rparr>
              else Inl (HttpError (Some ''Product not found''))"
  let ?c = "\<lparr>cartItems = [\<lparr>id_c = ''c1'', product_id = ''p1'', quantity = Num 2\<rparr>],
             products = [''p1'' \<mapsto> \<lparr>id_p = ''p1'', name_p = ''Apple'', price = Num 120, stock_quantity = Num 5\<rparr>],
             loading = False\<rparr>"
  let ?e = "\<lparr>localStorage_token = Some ''t'', axios_Authorization = Some ''Bearer t'', sent = [], alerts = []\<rparr>"
  note inst = removeFromCart_delete_then_refetch [of "''c9''" "Inr ()" "Inr (cartItems ?c)" ?pr ?c ?e _ "()"]
  have h: "same_products ?pr ?c"
    by (simp add: same_products_def)
  have total: "getTotalPrice (cartItems ?c) (products ?c) = Num 240"
    by (simp add: getTotalPrice_def products_at_def rnd_numeral)
  have "getTotalPrice
          (cartItems (fst (removeFromCart ''c9'' (Inr ()) (Inr (cartItems ?c)) ?pr (?c, ?e))))
          (products (fst (removeFromCart ''c9'' (Inr ()) (Inr (cartItems ?c)) ?pr (?c, ?e))))
        = getTotalPrice (cartItems ?c) (products ?c)"
    by (rule inst [THEN conjunct2, THEN conjunct2, THEN conjunct2, rule_format, OF h])
  then have a: "getTotalPrice
          (cartItems (fst (removeFromCart ''c9'' (Inr ()) (Inr (cartItems ?c)) ?pr (?c, ?e))))
          (products (fst (removeFromCart ''c9'' (Inr ()) (Inr (cartItems ?c)) ?pr (?c, ?e))))
        = Num 240"
    by (simp only: total)
  have b: "sent (snd (removeFromCart ''c9'' (Inr ()) (Inr (cartItems ?c)) ?pr (?c, ?e)))
        = [DELETE_cart ''c9'', GET_cart, GET_products_id ''p1'']"
    using inst [THEN conjunct1] by simp
  from h a b show ?thesis by simp
qed

text \<open>
  C4, as the claim has it, fails when the delete is refused: removing the item \<^verbatim>\<open>c9\<close>,
  which is not in the cart, with the backend answering the delete with an error, sends the
  delete and nothing else. No \<^verbatim>\<open>GET /cart\<close> follows.
\<close>

theorem removeFromCart_failed_delete_no_refetch:
  "''c9'' \<notin> set (map id_c [\<lparr>id_c = ''c1'', product_id = ''p1'', quantity = Num 2\<rparr>])
   \<and> removeFromCart ''c9'' (Inl (HttpError (Some ''Cart item not found'')))
        (Inr [\<lparr>id_c = ''c1'', product_id = ''p1'', quantity = Num 2\<rparr>])
        (\<lambda>pid. Inr \<lparr>id_p = pid, name_p = ''Apple'', price = Num 120, stock_quantity = Num 5\<rparr>)
        (\<lparr>cartItems = [\<lparr>id_c = ''c1'', product_id = ''p1'', quantity = Num 2\<rparr>],
          products = [''p1'' \<mapsto> \<lparr>id_p = ''p1'', name_p = ''Apple'', price = Num 120, stock_quantity = Num 5\<rparr>],
          loading = False\<rparr>,
         \<lparr>localStorage_token = Some ''t'', axios_Authorization = Some ''Bearer t'', sent = [], alerts = []\<rparr>)
     = (\<lparr>cartItems = [\<lparr>id_c = ''c1'', product_id = ''p1'', quantity = Num 2\<rparr>],
          products = [''p1'' \<mapsto> \<lparr>id_p = ''p1'', name_p = ''Apple'', price = Num 120, stock_quantity = Num 5\<rparr>],
          loading = False\<rparr>,
        \<lparr>localStorage_token = Some ''t'', axios_Authorization = Some ''Bearer t'',
           sent = [DELETE_cart ''c9''], alerts = [''Error removing item: Cart item not found'']\<rparr>)
   \<and> GET_cart \<notin> set (sent (snd
        (removeFromCart ''c9'' (Inl (HttpError (Some ''Cart item not found'')))
          (Inr [\<lparr>id_c = ''c1'', product_id = ''p1'', quantity = Num 2\<rparr>])
          (\<lambda>pid. Inr \<lparr>id_p = pid, name_p = ''Apple'', price = Num 120, stock_quantity = Num 5\<rparr>)
          (\<lparr>cartItems = [\<lparr>id_c = ''c1'', product_id = ''p1'', quantity = Num 2\<rparr>],
            products = [''p1'' \<mapsto> \<lparr>id_p = ''p1'', name_p = ''Apple'', price = Num 120, stock_quantity = Num 5\<rparr>],
            loading = False\<rparr>,
           \<lparr>localStorage_token = Some ''t'', axios_Authorization = Some ''Bearer t'', sent = [], alerts = []\<rparr>))))"
  by (simp add: removeFromCart_def send_def alert_def detail_or_unknown_def)

section \<open>The cart badge\<close>

text \<open>
  C10. With a user present and the cart fetched, \<^verbatim>\<open>cartCount\<close> is the sum, as JavaScript
  adds, of the \<^verbatim>\<open>quantity\<close> fields of the items returned, and the badge shows that number
  whenever it is above zero; for integer quantities whose magnitudes add up to at most
  \<open>2^53\<close> it is their sum as integers. When the fetch fails, \<^verbatim>\<open>cartCount\<close> and the badge
  stay as they were.
\<close>

theorem fetchCartCount_sum:
  "(usr \<noteq> None \<longrightarrow>
      cartCount (fst (fetchCartCount usr (Inr data) (n, e))) = js_sum (map quantity data))
   \<and> (usr1 \<noteq> None \<and> js_gt (js_sum (map quantity data1)) (Num 0) \<longrightarrow>
      badge (fst (fetchCartCount usr1 (Inr data1) (n, e))) = Some (js_sum (map quantity data1)))
   \<and> (usr2 \<noteq> None \<and> list_all is_int (map quantity data2)
        \<and> (\<Sum>item\<leftarrow>data2. \<bar>int_val (quantity item)\<bar>) \<le> 2 ^ 53 \<longrightarrow>
      cartCount (fst (fetchCartCount usr2 (Inr data2) (n, e)))
        = Num (of_int (\<Sum>item\<leftarrow>data2. int_val (quantity item))))
   \<and> cartCount (fst (fetchCartCount usr (Inl err) (n, e))) = cartCount n
   \<and> badge (fst (fetchCartCount usr (Inl err) (n, e))) = badge n"
proof -
  have cnt: "u \<noteq> None \<Longrightarrow>
      cartCount (fst (fetchCartCount u (Inr d) (n, e))) = js_sum (map quantity d)" for u d
    by (simp add: fetchCartCount_def js_sum_def foldl_map)
  have fail: "fst (fetchCartCount usr (Inl err) (n, e)) = n"
    by (simp add: fetchCartCount_def)
  have exact: "js_sum (map quantity data2) = Num (of_int (\<Sum>item\<leftarrow>data2. int_val (quantity item)))"
    if ints: "list_all is_int (map quantity data2)"
      and bound: "(\<Sum>item\<leftarrow>data2. \<bar>int_val (quantity item)\<bar>) \<le> 2 ^ 53"
  proof -
    have "\<And>item. item \<in> set data2 \<Longrightarrow> quantity item = Num (of_int (int_val (quantity item)))"
      using ints by (auto simp: list_all_iff intro: is_int_val)
    then have eq: "map quantity data2
        = map (\<lambda>n. Num (of_int n)) (map (\<lambda>item. int_val (quantity item)) data2)"
      by (simp add: comp_def)
    have "(\<Sum>n\<leftarrow>map (\<lambda>item. int_val (quantity item)) data2. \<bar>n\<bar>) \<le> 2 ^ 53"
      using bound by (simp add: comp_def)
    then have "js_sum (map (\<lambda>n. Num (of_int n)) (map (\<lambda>item. int_val (quantity item)) data2))
        = Num (of_int (sum_list (map (\<lambda>item. int_val (quantity item)) data2)))"
      by (rule js_sum_ints)
    then show ?thesis by (simp only: eq)
  qed
  show ?thesis
    using cnt [of usr data] cnt [of usr1 data1] cnt [of usr2 data2] exact
    by (simp add: fail badge_def)
qed

text \<open>
  C10 at a cart of two rows with quantities 2 and 3: the badge shows 5, not 2.
\<close>

theorem fetchCartCount_sum_witness:
  "Some \<lparr>id_u = ''u1'', name_u = ''Asha'', email = ''asha@example.com'', role = ''customer''\<rparr> \<noteq> None
   \<and> js_gt (js_sum (map quantity
          [\<lparr>id_c = ''c1'', product_id = ''p1'', quantity = Num 2\<rparr>,
           \<lparr>id_c = ''c2'', product_id = ''p2'', quantity = Num 3\<rparr>])) (Num 0)
   \<and> list_all is_int (map quantity
          [\<lparr>id_c = ''c1'', product_id = ''p1'', quantity = Num 2\<rparr>,
           \<lparr>id_c = ''c2'', product_id = ''p2'', quantity = Num 3\<rparr>])
   \<and> (\<Sum>item\<leftarrow>[\<lparr>id_c = ''c1'', product_id = ''p1'', quantity = Num 2\<rparr>,
                  \<lparr>id_c = ''c2'', product_id = ''p2'', quantity = Num 3\<rparr>].
          \<bar>int_val (quantity item)\<bar>) \<le> 2 ^ 53
   \<and> cartCount (fst (fetchCartCount
          (Some \<lparr>id_u = ''u1'', name_u = ''Asha'', email = ''asha@example.com'', role = ''customer''\<rparr>)
          (Inr [\<lparr>id_c = ''c1'', product_id = ''p1'', quantity = Num 2\<rparr>,
                \<lparr>id_c = ''c2'', product_id = ''p2'', quantity = Num 3\<rparr>])
          (\<lparr>cartCount = Num 0\<rparr>,
           \<lparr>localStorage_token = Some ''t'', axios_Authorization = Some ''Bearer t'', sent = [], alerts = []\<rparr>)))
       = Num 5
   \<and> badge (fst (fetchCartCount
          (Some \<lparr>id_u = ''u1'', name_u = ''Asha'', email = ''asha@example.com'', role = ''customer''\<rparr>)
          (Inr [\<lparr>id_c = ''c1'', product_id = ''p1'', quantity = Num 2\<rparr>,
                \<lparr>id_c = ''c2'', product_id = ''p2'', quantity = Num 3\<rparr>])
          (\<lparr>cartCount = Num 0\<rparr>,
           \<lparr>localStorage_token = Some ''t'', axios_Authorization = Some ''Bearer t'', sent = [], alerts = []\<rparr>)))
       = Some (Num 5)"
proof -
  let ?u = "Some \<lparr>id_u = ''u1'', name_u = ''Asha'', email = ''asha@example.com'', role = ''customer''\<rparr>"
  let ?data = "[\<lparr>id_c = ''c1'', product_id = ''p1'', quantity = Num 2\<rparr>,
                \<lparr>id_c = ''c2'', product_id = ''p2'', quantity = Num 3\<rparr>]"
  let ?n = "\<lparr>cartCount = Num 0\<rparr>"
  let ?e = "\<lparr>localStorage_token = Some ''t'', axios_Authorization = Some ''Bearer t'', sent = [], alerts = []\<rparr>"
  have s: "js_sum (map quantity ?data) = Num 5"
    by (simp add: js_sum_def rnd_numeral)
  have h1: "?u \<noteq> None" by simp
  have h2: "js_gt (js_sum (map quantity ?data)) (Num 0)" unfolding s by simp
  have h3: "list_all is_int (map quantity ?data)" by simp
  have h4: "(\<Sum>item\<leftarrow>?data. \<bar>int_val (quantity item)\<bar>) \<le> 2 ^ 53" by simp
  note inst = fetchCartCount_sum [of ?u ?data ?n ?e ?u ?data ?u ?data]
  have a: "cartCount (fst (fetchCartCount ?u (Inr ?data) (?n, ?e))) = Num 5"
    using inst [THEN conjunct1, rule_format, OF h1] by (simp only: s)
  have b: "badge (fst (fetchCartCount ?u (Inr ?data) (?n, ?e))) = Some (Num 5)"
    using inst [THEN conjunct2, THEN conjunct1, rule_format, OF conjI [OF h1 h2]] by (simp only: s)
  from h1 h2 h3 h4 a b show ?thesis by (intro conjI)
qed

end
